theory Spec2Isabelle
  imports Complex_Main "HOL-Library.Sublist" "HOL-Library.Multiset" "HOL-Library.Log_Nat"
    "HOL-Library.Product_Lexorder"
begin

section \<open>The line component of the train tracker (src/components/Line.js)\<close>

text \<open>
  The component draws one transit line: the rail path, a marker and label per station and
  a marker per active train. This theory embeds the helper functions of the file and the
  render function \<open>Line\<close> itself, and proves the properties stated for them.

  Conventions of the embedding.
  \<^item> JavaScript numbers are IEEE 754 doubles: the type \<open>number\<close> below has \<open>NaN\<close>, the
    two infinities and the finite values, and \<open>+\<close>, \<open>-\<close>, \<open>*\<close> round their exact result to
    the nearest double, ties to even, overflowing to an infinity. The two zeros are not
    told apart: the code never divides, and both print as \<open>0\<close>.
  \<^item> Strings are \<^typ>\<open>string\<close>; the patterns the source matches are ASCII.
  \<^item> Built-in conversions whose result the source only embeds in a string (number to
    string in a template literal, \<open>toLowerCase\<close>) are parameters, collected in the
    record \<open>builtins\<close>. So are the two operations that ECMAScript leaves
    implementation-approximated, \<open>**\<close> and \<open>Math.sqrt\<close>: the record holds a real-valued
    approximation for each, and the model rounds it to a double.
  \<^item> A plain object used as a dictionary is an association list of its own properties in
    enumeration order (the order of \<open>Object.entries\<close>). A read with a key from the live
    feed (\<open>train.stationId\<close>, any string) also finds what every object inherits from
    \<open>Object.prototype\<close>. The keys of the prerendered tables are the station ids of the
    static reference data; the read \<open>stations[stationId]\<close>, whose key is such a key, is
    a read of own properties.
  \<^item> Record fields keep the source's property names, suffixed where the name would hide a
    HOL constant or a variable name (\<open>x\<close>, \<open>y\<close>, \<open>top\<close>, ...).
\<close>

subsection \<open>Numbers\<close>

datatype number = NaN | NegInfinity | Infinity | Finite real

text \<open>
  Rounding to the nearest double. A finite double is an integer multiple \<open>m * 2^e\<close> with
  \<open>\<bar>m\<bar> < 2^53\<close> and \<open>-1074 \<le> e \<le> 971\<close>. The definitions work on the magnitude scaled by
  \<open>2^1074\<close>, so that every double is an integer and exponents are natural numbers: the
  exponent of a scaled magnitude \<open>X\<close> is 0 below \<open>2^53\<close> (subnormals and the first binade)
  and otherwise the \<open>e\<close> with \<open>2^(52+e) \<le> X < 2^(53+e)\<close>; the quotient \<open>X / 2^e\<close> is rounded
  to an integer, halves going to the even neighbour; a result of \<open>2^1024\<close> (scaled:
  \<open>2^2098\<close>) or more is an overflow.
\<close>

definition gridBits :: nat where
  "gridBits = 1074"

definition maxExponent :: nat where
  "maxExponent = 1024"

definition grid :: real where
  "grid = 2 ^ gridBits"

definition overflowBound :: int where
  "overflowBound = 2 ^ (maxExponent + gridBits)"

definition exponentOf :: "real \<Rightarrow> nat" where
  "exponentOf X = nat (bitlen \<lfloor>X\<rfloor> - 53)"

definition roundHalfEven :: "real \<Rightarrow> int" where
  "roundHalfEven q =
     (let f = \<lfloor>q\<rfloor>; r = q - of_int f
      in if r < 1 / 2 then f
         else if 1 / 2 < r then f + 1
         else if even f then f else f + 1)"

definition roundMagnitude :: "real \<Rightarrow> int" where
  "roundMagnitude X = roundHalfEven (X / 2 ^ exponentOf X) * 2 ^ exponentOf X"

definition scaledRound :: "real \<Rightarrow> int" where
  "scaledRound x =
     (if x < 0 then - roundMagnitude (- x * grid) else roundMagnitude (x * grid))"

definition roundToDouble :: "real \<Rightarrow> number" where
  "roundToDouble x =
     (let z = scaledRound x
      in if overflowBound \<le> z then Infinity
         else if z \<le> - overflowBound then NegInfinity
         else Finite (of_int z / grid))"

text \<open>The operators of the source: \<open><\<close>, \<open><=\<close>, \<open>>=\<close>, unary minus, \<open>+\<close>, \<open>-\<close>, \<open>*\<close>.
  Every comparison with \<open>NaN\<close> is false.\<close>

fun lessThan_js :: "number \<Rightarrow> number \<Rightarrow> bool" where
  "lessThan_js (Finite a) (Finite b) = (a < b)"
| "lessThan_js (Finite a) Infinity = True"
| "lessThan_js NegInfinity (Finite b) = True"
| "lessThan_js NegInfinity Infinity = True"
| "lessThan_js _ _ = False"

definition lessEq_js :: "number \<Rightarrow> number \<Rightarrow> bool" where
  "lessEq_js a b \<longleftrightarrow> lessThan_js a b \<or> (a = b \<and> a \<noteq> NaN)"

definition greaterEq_js :: "number \<Rightarrow> number \<Rightarrow> bool" where
  "greaterEq_js a b \<longleftrightarrow> lessEq_js b a"

fun isFinite :: "number \<Rightarrow> bool" where
  "isFinite (Finite a) = True"
| "isFinite _ = False"

fun negate :: "number \<Rightarrow> number" where
  "negate NaN = NaN"
| "negate NegInfinity = Infinity"
| "negate Infinity = NegInfinity"
| "negate (Finite a) = Finite (- a)"

fun add :: "number \<Rightarrow> number \<Rightarrow> number" where
  "add (Finite a) (Finite b) = roundToDouble (a + b)"
| "add NaN _ = NaN"
| "add _ NaN = NaN"
| "add Infinity NegInfinity = NaN"
| "add NegInfinity Infinity = NaN"
| "add Infinity _ = Infinity"
| "add _ Infinity = Infinity"
| "add NegInfinity _ = NegInfinity"
| "add _ NegInfinity = NegInfinity"

definition sub :: "number \<Rightarrow> number \<Rightarrow> number" where
  "sub a b = add a (negate b)"

fun mul :: "number \<Rightarrow> number \<Rightarrow> number" where
  "mul (Finite a) (Finite b) = roundToDouble (a * b)"
| "mul NaN _ = NaN"
| "mul _ NaN = NaN"
| "mul (Finite a) b = (if a = 0 then NaN else if 0 < a then b else negate b)"
| "mul a (Finite b) = (if b = 0 then NaN else if 0 < b then a else negate a)"
| "mul Infinity b = b"
| "mul NegInfinity b = negate b"

text \<open>A value that may be \<open>undefined\<close> converts to \<open>NaN\<close> where a number is needed.\<close>

fun toNumber :: "number option \<Rightarrow> number" where
  "toNumber None = NaN"
| "toNumber (Some v) = v"

record builtins =
  numberToString :: "number \<Rightarrow> string"
  toLowerCase :: "string \<Rightarrow> string"
  squareApprox :: "real \<Rightarrow> real"
  sqrtApprox :: "real \<Rightarrow> real"

text \<open>
  \<open>x ** 2\<close> and \<open>Math.sqrt(x)\<close>. ECMAScript fixes their results at \<open>NaN\<close>, at the infinities
  and for a negative argument of the root, and leaves the finite case to the
  implementation, whose result is a double or an infinity.
\<close>

definition squared :: "builtins \<Rightarrow> number \<Rightarrow> number" where
  "squared bi v =
     (case v of
        NaN \<Rightarrow> NaN
      | NegInfinity \<Rightarrow> Infinity
      | Infinity \<Rightarrow> Infinity
      | Finite a \<Rightarrow> roundToDouble (squareApprox bi a))"

definition mathSqrt :: "builtins \<Rightarrow> number \<Rightarrow> number" where
  "mathSqrt bi v =
     (case v of
        NaN \<Rightarrow> NaN
      | NegInfinity \<Rightarrow> NaN
      | Infinity \<Rightarrow> Infinity
      | Finite a \<Rightarrow> if a < 0 then NaN else roundToDouble (sqrtApprox bi a))"


subsection \<open>Plain objects as dictionaries\<close>

text \<open>
  The properties every plain object inherits from \<open>Object.prototype\<close>. Their values are
  functions (and, for \<open>__proto__\<close>, the prototype object): truthy, and without a property
  \<open>x\<close> or \<open>y\<close>. A bracket read \<open>obj[key]\<close> gives the object's own property if it has one,
  else the inherited one if the key is one of these names, else \<open>undefined\<close>.
\<close>

definition objectPrototypeProperties :: "string list" where
  "objectPrototypeProperties =
     [''constructor'', ''__defineGetter__'', ''__defineSetter__'', ''hasOwnProperty'',
      ''__lookupGetter__'', ''__lookupSetter__'', ''isPrototypeOf'', ''propertyIsEnumerable'',
      ''toString'', ''valueOf'', ''__proto__'', ''toLocaleString'']"

datatype 'a property = Undefined | Own 'a | Inherited

definition getProperty :: "(string \<times> 'a) list \<Rightarrow> string \<Rightarrow> 'a property" where
  "getProperty obj k =
     (case map_of obj k of
        Some v \<Rightarrow> Own v
      | None \<Rightarrow> if k \<in> set objectPrototypeProperties then Inherited else Undefined)"


subsection \<open>Station names: \<open>abbreviateStationName\<close>\<close>

text \<open>
  \<open>String.prototype.replace\<close> with a string pattern replaces the first occurrence of the
  pattern only, scanning from the left; the replacement texts of the source contain no
  \<open>$\<close>, so they are inserted literally.
\<close>

fun replace :: "string \<Rightarrow> string \<Rightarrow> string \<Rightarrow> string" where
  "replace pat rep [] = (if pat = [] then rep else [])"
| "replace pat rep (c # cs) =
     (if prefix pat (c # cs) then rep @ drop (length pat) (c # cs)
      else c # replace pat rep cs)"

definition abbreviateStationName :: "string \<Rightarrow> string" where
  "abbreviateStationName station =
     replace ''Heath Street'' ''Heath''
       (replace ''Hynes Convention Center'' ''Hynes''
         (replace ''Boston College'' ''B.C.'' station))"

text \<open>The three patterns of the replacement table.\<close>

definition patterns :: "string list" where
  "patterns = [''Boston College'', ''Hynes Convention Center'', ''Heath Street'']"

text \<open>A name contains a pattern when the pattern is a contiguous part of it.\<close>

definition containsPattern :: "string \<Rightarrow> bool" where
  "containsPattern s = list_ex (\<lambda>p. sublist p s) patterns"


subsection \<open>Geometry: \<open>renderViewboxForBounds\<close>, \<open>findClosestStationToTop\<close>\<close>

record point =
  x_pos :: number
  y_pos :: number

record bounds =
  top_b :: number
  bottom_b :: number
  left_b :: number
  right_b :: number

text \<open>
  The four numbers the function computes, in the source's order of \<open>const\<close> declarations,
  and the template literal \<open>`${minX} ${minY} ${width} ${height}`\<close> that joins them.
\<close>

record viewbox =
  minX :: number
  minY :: number
  width :: number
  height :: number

definition viewboxNumbers :: "bounds \<Rightarrow> viewbox" where
  "viewboxNumbers b =
     (let paddingTop = Finite 5;
          paddingBottom = Finite 10;
          paddingX = Finite 50;
          w = add (sub (right_b b) (left_b b)) (mul paddingX (Finite 2));
          h = add (add (sub (bottom_b b) (top_b b)) paddingTop) paddingBottom;
          mx = sub (left_b b) paddingX;
          my = sub (top_b b) paddingTop
      in \<lparr>minX = mx, minY = my, width = w, height = h\<rparr>)"

definition viewboxTemplate :: "builtins \<Rightarrow> viewbox \<Rightarrow> string" where
  "viewboxTemplate bi v =
     numberToString bi (minX v) @ '' '' @ numberToString bi (minY v) @ '' '' @
     numberToString bi (width v) @ '' '' @ numberToString bi (height v)"

definition renderViewboxForBounds :: "builtins \<Rightarrow> bounds \<Rightarrow> string" where
  "renderViewboxForBounds bi b = viewboxTemplate bi (viewboxNumbers b)"

text \<open>
  The function declares one parameter. A call that passes more arguments binds the first
  to \<open>bounds\<close> and the others to nothing: the body has no name for them (it is an arrow
  function, so there is no \<open>arguments\<close> object either).
\<close>

record paddingOptions =
  paddingX_opt :: number
  paddingY_opt :: number

definition renderViewboxForBoundsCall :: "builtins \<Rightarrow> bounds \<Rightarrow> 'o list \<Rightarrow> string" where
  "renderViewboxForBoundsCall bi b surplus = renderViewboxForBounds bi b"

text \<open>
  The distance of a point from the origin as the code computes it, under the name the
  specification gives it. The source writes the formula \<open>Math.sqrt(x ** 2 + y ** 2)\<close> out in
  both places that need it, and so do the definitions below; this function is for stating
  the properties.
\<close>

definition distanceFromOrigin :: "builtins \<Rightarrow> point \<Rightarrow> number" where
  "distanceFromOrigin bi p = mathSqrt bi (add (squared bi (x_pos p)) (squared bi (y_pos p)))"

text \<open>
  The accumulator of the scan: \<open>closestId\<close> starts as \<open>null\<close>, \<open>shortestDistance\<close> as
  \<open>Infinity\<close>.
\<close>

record closest =
  closestId :: "string option"
  shortestDistance :: number

definition closestStep :: "builtins \<Rightarrow> closest \<Rightarrow> string \<times> point \<Rightarrow> closest" where
  "closestStep bi acc entry =
     (let nextId = fst entry;
          nextPosition = snd entry;
          x = x_pos nextPosition;
          y = y_pos nextPosition;
          nextDistance = mathSqrt bi (add (squared bi x) (squared bi y))
      in if lessThan_js nextDistance (shortestDistance acc)
         then \<lparr>closestId = Some nextId, shortestDistance = nextDistance\<rparr>
         else acc)"

definition findClosestStationToTop ::
  "builtins \<Rightarrow> (string \<times> point) list \<Rightarrow> string option" where
  "findClosestStationToTop bi stationPositions =
     closestId (foldl (closestStep bi) \<lparr>closestId = None, shortestDistance = Infinity\<rparr>
                  stationPositions)"


subsection \<open>Ordering the trains: \<open>sortTrainRoutePairsByDistance\<close>\<close>

text \<open>
  A train carries the two properties this file reads; a (train, route) pair carries the
  train and a route the file only passes on, hence a type parameter.
\<close>

record train =
  label :: string
  stationId :: string

record 'r trainRoutePair =
  train :: train
  route :: 'r

text \<open>
  The only way this code can fail is a \<open>TypeError\<close>: destructuring \<open>{ x, y }\<close> from
  \<open>undefined\<close> throws. The model keeps that branch, so that "does not throw" is a
  statement about the result. Destructuring an inherited function or object does not
  throw: it reads \<open>undefined\<close> for both \<open>x\<close> and \<open>y\<close>.
\<close>

datatype error = TypeError

definition destructurePoint ::
  "point property \<Rightarrow> error + number option \<times> number option" where
  "destructurePoint v =
     (case v of
        Undefined \<Rightarrow> Inl TypeError
      | Own p \<Rightarrow> Inr (Some (x_pos p), Some (y_pos p))
      | Inherited \<Rightarrow> Inr (None, None))"

text \<open>
  The callback of \<open>pairs.map\<close>: \<open>stationPositions[train.stationId]\<close> is \<open>undefined\<close> for an
  id that names no property, and \<open>if (station)\<close> guards the destructuring (a point is an
  object, hence truthy, and so is everything inherited).
\<close>

definition distanceEntry ::
  "builtins \<Rightarrow> (string \<times> point) list \<Rightarrow> 'r trainRoutePair \<Rightarrow>
   error + 'r trainRoutePair \<times> number" where
  "distanceEntry bi stationPositions pair =
     (let station = getProperty stationPositions (stationId (train pair))
      in if station \<noteq> Undefined
         then (case destructurePoint station of
                 Inl e \<Rightarrow> Inl e
               | Inr (x, y) \<Rightarrow>
                   Inr (pair, mathSqrt bi (add (squared bi (toNumber x))
                                               (squared bi (toNumber y)))))
         else Inr (pair, Finite 0))"

text \<open>\<open>Array.prototype.map\<close> with a callback that may throw: the first throw ends the loop.\<close>

fun mapArray :: "('a \<Rightarrow> error + 'b) \<Rightarrow> 'a list \<Rightarrow> error + 'b list" where
  "mapArray f [] = Inr []"
| "mapArray f (a # as) =
     (case f a of
        Inl e \<Rightarrow> Inl e
      | Inr b \<Rightarrow> (case mapArray f as of Inl e \<Rightarrow> Inl e | Inr bs \<Rightarrow> Inr (b # bs)))"

text \<open>
  \<open>new Map(entries)\<close> adds the entries in order, a later entry replacing an earlier one
  with the same key; \<open>Map.prototype.get\<close> of a missing key is \<open>undefined\<close>. The source's
  keys are the pair objects, compared by identity; here pairs are values. Two pairs that
  are equal as values have the same train, so the callback gives them the same distance
  and a lookup finds the same number either way.
\<close>

definition newMap :: "('k \<times> 'v) list \<Rightarrow> ('k \<rightharpoonup> 'v)" where
  "newMap entries = foldl (\<lambda>m entry. m(fst entry \<mapsto> snd entry)) Map.empty entries"

text \<open>The comparator \<open>(a, b) => distanceMap.get(a) - distanceMap.get(b)\<close>.\<close>

definition compareFn :: "('a \<rightharpoonup> number) \<Rightarrow> 'a \<Rightarrow> 'a \<Rightarrow> number" where
  "compareFn distanceMap a b = sub (toNumber (distanceMap a)) (toNumber (distanceMap b))"

text \<open>
  \<open>Array.prototype.sort\<close> is the language's: ECMAScript defines that a comparator result
  of \<open>NaN\<close> counts as \<open>+0\<close> (SortCompare), that the result is ordered as the comparator
  says when the comparator is consistent, and (since ES2019) that the sort is stable. It
  is modelled by the stable insertion sort below, which asks the comparator only about
  elements of the array and moves an element behind another only when the comparator
  result is greater than zero. The sort works in place and returns the array it was
  called on.
\<close>

definition sortCompare :: "('a \<Rightarrow> 'a \<Rightarrow> number) \<Rightarrow> 'a \<Rightarrow> 'a \<Rightarrow> number" where
  "sortCompare comparefn a b = (case comparefn a b of NaN \<Rightarrow> Finite 0 | v \<Rightarrow> v)"

fun insertSorted :: "('a \<Rightarrow> 'a \<Rightarrow> number) \<Rightarrow> 'a \<Rightarrow> 'a list \<Rightarrow> 'a list" where
  "insertSorted comparefn a [] = [a]"
| "insertSorted comparefn a (b # bs) =
     (if lessThan_js (Finite 0) (sortCompare comparefn a b)
      then b # insertSorted comparefn a bs
      else a # b # bs)"

definition arraySort :: "('a \<Rightarrow> 'a \<Rightarrow> number) \<Rightarrow> 'a list \<Rightarrow> 'a list" where
  "arraySort comparefn as = foldr (insertSorted comparefn) as []"

text \<open>
  Arrays are objects: a variable holds a reference, and \<open>pairs.sort(...)\<close> writes through
  it. The store maps an array reference to the array's present contents.
\<close>

type_synonym 'r store = "nat \<Rightarrow> 'r trainRoutePair list"

definition sortTrainRoutePairsByDistance ::
  "builtins \<Rightarrow> 'r store \<Rightarrow> nat \<Rightarrow> (string \<times> point) list \<Rightarrow> error + nat \<times> 'r store" where
  "sortTrainRoutePairsByDistance bi st pairs stationPositions =
     (case mapArray (distanceEntry bi stationPositions) (st pairs) of
        Inl e \<Rightarrow> Inl e
      | Inr entries \<Rightarrow>
          (let distanceMap = newMap entries
           in Inr (pairs, st(pairs := arraySort (compareFn distanceMap) (st pairs)))))"

text \<open>
  The distance the specification speaks of, as computed: the distance from the origin of
  the train's station, 0 when the station id names no property, and \<open>NaN\<close> when it names
  an inherited one. A list is in ascending order of a key when no element's key is
  greater than a later element's, by the \<open><=\<close> of the language.
\<close>

definition trainDistance ::
  "builtins \<Rightarrow> (string \<times> point) list \<Rightarrow> 'r trainRoutePair \<Rightarrow> number" where
  "trainDistance bi stationPositions pair =
     (case getProperty stationPositions (stationId (train pair)) of
        Undefined \<Rightarrow> Finite 0
      | Own p \<Rightarrow> distanceFromOrigin bi p
      | Inherited \<Rightarrow> NaN)"

definition ascendingBy :: "('a \<Rightarrow> number) \<Rightarrow> 'a list \<Rightarrow> bool" where
  "ascendingBy f as = sorted_wrt (\<lambda>a b. lessEq_js (f a) (f b)) as"


subsection \<open>The rendered tree\<close>

text \<open>
  A JSX element is a tag with attributes and children; \<open><Train ... />\<close> is a component
  of another file, kept as the record of the props it is given. A child expression whose
  value is falsy renders nothing and is left out of the children.
\<close>

datatype attr =
    Str string
  | Num number
  | Style "(string \<times> string) list"
  | Ref string
  | Container "nat option"

record colors =
  lines :: string
  newTrains :: string
  background :: string

record 'r trainProps =
  focusOnMount :: bool
  key :: string
  train_p :: train
  route_p :: 'r
  colors_p :: colors
  alwaysLabelTrain :: bool

datatype 'r node =
    Element string "(string \<times> attr) list" "'r node list"
  | Train "'r trainProps"
  | Text string

fun containsTag :: "string \<Rightarrow> 'r node \<Rightarrow> bool" where
  "containsTag t (Element tag attrs children) = (tag = t \<or> list_ex (containsTag t) children)"
| "containsTag t (Train props) = False"
| "containsTag t (Text s) = False"

text \<open>The props of the \<open><Train />\<close> elements of a tree, in document order, and the
  attribute lists of its elements with a given tag.\<close>

fun trainElements :: "'r node \<Rightarrow> 'r trainProps list" where
  "trainElements (Element tag attrs children) = concat (map trainElements children)"
| "trainElements (Train props) = [props]"
| "trainElements (Text s) = []"

fun elementsWithTag :: "string \<Rightarrow> 'r node \<Rightarrow> (string \<times> attr) list list" where
  "elementsWithTag t (Element tag attrs children) =
     (if tag = t then [attrs] else []) @ concat (map (elementsWithTag t) children)"
| "elementsWithTag t (Train props) = []"
| "elementsWithTag t (Text s) = []"


subsection \<open>Styles: \<open>renderRelativeStyles\<close>, \<open>renderContainerStyles\<close>\<close>

text \<open>
  \<open>renderRelativeStyles\<close> destructures \<open>{ width, height }\<close> from its argument. The argument
  is either an object with these two properties, each a number or missing, or a string
  primitive, which has neither property (a string has \<open>length\<close>, indices and the methods of
  \<open>String.prototype\<close>), so that both reads give \<open>undefined\<close>. In \<open>width > height\<close> an
  \<open>undefined\<close> operand converts to \<open>NaN\<close>, and every comparison with \<open>NaN\<close> is false.
\<close>

datatype styleArgument =
    StringValue string
  | SizeObject "number option" "number option"

fun widthOf :: "styleArgument \<Rightarrow> number option" where
  "widthOf (StringValue s) = None"
| "widthOf (SizeObject w h) = w"

fun heightOf :: "styleArgument \<Rightarrow> number option" where
  "heightOf (StringValue s) = None"
| "heightOf (SizeObject w h) = h"

fun greaterThan_js :: "number option \<Rightarrow> number option \<Rightarrow> bool" where
  "greaterThan_js (Some a) (Some b) = lessThan_js b a"
| "greaterThan_js _ _ = False"

definition renderRelativeStyles :: "styleArgument \<Rightarrow> (string \<times> string) list" where
  "renderRelativeStyles arg =
     (let w = widthOf arg; h = heightOf arg
      in if greaterThan_js w h then [(''width'', ''100%'')] else [(''height'', ''100%'')])"

definition renderContainerStyles ::
  "builtins \<Rightarrow> number option \<Rightarrow> (string \<times> string) list" where
  "renderContainerStyles bi lineOffset =
     (case lineOffset of
        Some offset \<Rightarrow>
          (let negativeOffset = sub (Finite 0) offset
           in [(''transform'',
                ''translateX(calc('' @ numberToString bi negativeOffset @ ''px + 40vw))'')])
      | None \<Rightarrow> [])"

text \<open>Object spread \<open>{ ...a, ...b }\<close>: the properties of \<open>a\<close>, then those of \<open>b\<close>, a property
  of \<open>b\<close> replacing the value of the same property of \<open>a\<close> in its place.\<close>

fun setProperty :: "string \<Rightarrow> string \<Rightarrow> (string \<times> string) list \<Rightarrow> (string \<times> string) list" where
  "setProperty k v [] = [(k, v)]"
| "setProperty k v (p # ps) = (if fst p = k then (k, v) # ps else p # setProperty k v ps)"

definition spread :: "(string \<times> string) list \<Rightarrow> (string \<times> string) list \<Rightarrow> (string \<times> string) list" where
  "spread a b = foldl (\<lambda>acc p. setProperty (fst p) (snd p) acc) a b"


subsection \<open>The component \<open>Line\<close>\<close>

text \<open>
  The props: \<open>line\<close> is the static descriptor; \<open>style\<close> the style overrides. The \<open>api\<close>
  prop only feeds \<open>prerenderLine\<close> and \<open>getTrainRoutePairsForLine\<close>, functions of other
  files: the model takes their results instead, the prerendered geometry as a record and
  the array of (train, route) pairs as a reference into the store. The values of the
  three \<open>useState\<close> hooks at the render are the record \<open>lineState\<close>.
\<close>

record station =
  station_name :: string

record line =
  name :: string
  color :: string
  colorSecondary :: string
  getStationLabelPosition :: "string \<Rightarrow> string option"
  shouldLabelTrain :: "train \<Rightarrow> bool"

record 'r prerendered =
  pathDirective :: string
  bounds :: bounds
  routes :: "'r list"
  stationPositions :: "(string \<times> point) list"
  stations :: "(string \<times> station) list"

record lineState =
  lineOffset :: "number option"
  shouldFocusOnFirstTrain :: bool
  container :: "nat option"

text \<open>A string operand of \<open>&&\<close> is truthy unless it is missing or empty.\<close>

fun truthy :: "string option \<Rightarrow> bool" where
  "truthy None = False"
| "truthy (Some s) = (s \<noteq> [])"

definition renderLine :: "'r prerendered \<Rightarrow> colors \<Rightarrow> 'r node" where
  "renderLine pre cs =
     Element ''path''
       [(''d'', Str (pathDirective pre)), (''stroke'', Str (lines cs)),
        (''fill'', Str ''transparent'')] []"

definition renderStation ::
  "builtins \<Rightarrow> line \<Rightarrow> 'r prerendered \<Rightarrow> colors \<Rightarrow> string option \<Rightarrow> string \<times> point \<Rightarrow> 'r node" where
  "renderStation bi line pre cs closest entry =
     (let stationId = fst entry;
          pos = snd entry;
          labelPosition = getStationLabelPosition line stationId;
          stationName = (case map_of (stations pre) stationId of
                           None \<Rightarrow> None
                         | Some s \<Rightarrow> Some (abbreviateStationName (station_name s)));
          refProps = (if Some stationId = closest then [(''ref'', Ref ''firstStationRef'')] else []);
          label = (case stationName of
                     None \<Rightarrow> []
                   | Some shown \<Rightarrow>
                       if truthy labelPosition \<and> truthy stationName
                       then [Element ''text''
                               [(''aria-hidden'', Str ''true''),
                                (''fontSize'', Num (Finite 4)),
                                (''fill'', Str (lines cs)),
                                (''textAnchor'',
                                   Str (if labelPosition = Some ''right'' then ''start''
                                        else ''end'')),
                                (''x'', Num (if labelPosition = Some ''right'' then Finite 4 else Finite (- 4))),
                                (''y'', Num (Finite 1.5))]
                               [Text shown]]
                       else [])
      in Element ''g''
           ([(''key'', Str stationId),
             (''transform'',
                Str (''translate('' @ numberToString bi (x_pos pos) @ '', '' @
                     numberToString bi (y_pos pos) @ '')''))] @ refProps)
           (Element ''circle''
              [(''cx'', Num (Finite 0)), (''cy'', Num (Finite 0)), (''r'', Num (Finite 1)),
               (''fill'', Str (lines cs))] []
            # label))"

definition renderStations ::
  "builtins \<Rightarrow> line \<Rightarrow> 'r prerendered \<Rightarrow> colors \<Rightarrow> 'r node list" where
  "renderStations bi line pre cs =
     (let closest = findClosestStationToTop bi (stationPositions pre)
      in map (renderStation bi line pre cs closest) (stationPositions pre))"

text \<open>
  \<open>renderTrains\<close> maps the array that the sort returns, with the index of each element.
\<close>

definition renderTrain :: "line \<Rightarrow> colors \<Rightarrow> bool \<Rightarrow> nat \<times> 'r trainRoutePair \<Rightarrow> 'r node" where
  "renderTrain line cs focusFirst indexed =
     (let index = fst indexed; pair = snd indexed
      in Train \<lparr>focusOnMount = (focusFirst \<and> index = 0),
                key = label (train pair),
                train_p = train pair,
                route_p = route pair,
                colors_p = cs,
                alwaysLabelTrain = shouldLabelTrain line (train pair)\<rparr>)"

definition renderTrains ::
  "builtins \<Rightarrow> line \<Rightarrow> 'r prerendered \<Rightarrow> colors \<Rightarrow> bool \<Rightarrow> 'r store \<Rightarrow> nat \<Rightarrow>
   error + 'r node list \<times> 'r store" where
  "renderTrains bi line pre cs focusFirst st trainRoutePairs =
     (case sortTrainRoutePairsByDistance bi st trainRoutePairs (stationPositions pre) of
        Inl e \<Rightarrow> Inl e
      | Inr (sortedPairs, st') \<Rightarrow>
          Inr (map (renderTrain line cs focusFirst) (enumerate 0 (st' sortedPairs)), st'))"

definition emptyNotice :: "line \<Rightarrow> string" where
  "emptyNotice line =
     (if name line = ''Red'' then ''New Red Line trains are expected later in 2020.''
      else ''No new trains on the '' @ name line @ '' Line right now.'')"

definition Line ::
  "builtins \<Rightarrow> line \<Rightarrow> (string \<times> string) list \<Rightarrow> 'r prerendered \<Rightarrow> lineState \<Rightarrow>
   'r store \<Rightarrow> nat \<Rightarrow> error + 'r node \<times> 'r store" where
  "Line bi line style pre state st trainRoutePairs =
     (let cs = \<lparr>lines = ''white'', newTrains = color line, background = colorSecondary line\<rparr>;
          viewbox = renderViewboxForBoundsCall bi (bounds pre)
                      [\<lparr>paddingX_opt = Finite 500, paddingY_opt = Finite 5\<rparr>]
      in if length (st trainRoutePairs) = 0
         then Inr (Element ''div'' [(''className'', Str ''line-pane empty'')]
                     [Element ''div'' [(''className'', Str ''empty-notice'')]
                        [Text (emptyNotice line)]],
                   st)
         else (let line' = renderLine pre cs;
                   stations' = renderStations bi line pre cs
               in case renderTrains bi line pre cs (shouldFocusOnFirstTrain state) st
                         trainRoutePairs of
                    Inl e \<Rightarrow> Inl e
                  | Inr (trains', st') \<Rightarrow>
                      Inr (Element ''div''
                             [(''role'', Str ''list''),
                              (''aria-label'', Str (''New trains on the '' @ name line @ '' Line'')),
                              (''ref'', Ref ''setContainer''),
                              (''className'',
                                 Str (if toLowerCase bi (name line) = [] then ''line-pane''
                                      else ''line-pane '' @ toLowerCase bi (name line))),
                              (''style'',
                                 Style (spread (renderContainerStyles bi (lineOffset state)) style))]
                             [Element ''PopoverContainerContext.Provider''
                                [(''value'', Container (container state))]
                                [Element ''svg''
                                   [(''viewBox'', Str viewbox),
                                    (''style'', Style (renderRelativeStyles (StringValue viewbox)))]
                                   (line' # stations' @ trains')]],
                           st')))"


subsection \<open>Auxiliary definitions for the proofs\<close>

text \<open>
  A finite double is a multiple of the smallest positive double; a distance value is one
  that is not \<open>NaN\<close> and, if finite, such a multiple. Distance values are ranked in their
  order, \<open>-Infinity\<close> first and \<open>Infinity\<close> last.
\<close>

definition onGrid :: "real \<Rightarrow> bool" where
  "onGrid r \<longleftrightarrow> (\<exists>k::int. r * grid = of_int k)"

fun ordinary :: "number \<Rightarrow> bool" where
  "ordinary NaN = False"
| "ordinary (Finite r) = onGrid r"
| "ordinary _ = True"

fun rank :: "number \<Rightarrow> nat \<times> real" where
  "rank NegInfinity = (0, 0)"
| "rank (Finite r) = (1, r)"
| "rank Infinity = (2, 0)"
| "rank NaN = (3, 0)"

text \<open>The array as the sort leaves it.\<close>

definition sortedPairs ::
  "builtins \<Rightarrow> (string \<times> point) list \<Rightarrow> 'r trainRoutePair list \<Rightarrow> 'r trainRoutePair list" where
  "sortedPairs bi sp as =
     arraySort (compareFn (newMap (map (\<lambda>p. (p, trainDistance bi sp p)) as))) as"

text \<open>
  What the closest-station scan has established after a prefix \<open>sp\<close> of the entries:
  either no entry so far has a distance below \<open>Infinity\<close> and the accumulator is the
  initial one, or the accumulator names the first entry of least distance.
\<close>

definition scanInvariant :: "builtins \<Rightarrow> (string \<times> point) list \<Rightarrow> closest \<Rightarrow> bool" where
  "scanInvariant bi sp acc \<longleftrightarrow>
     ((\<forall>j<length sp. \<not> lessThan_js (distanceFromOrigin bi (snd (sp ! j))) Infinity) \<and>
      acc = \<lparr>closestId = None, shortestDistance = Infinity\<rparr>) \<or>
     (\<exists>i<length sp.
        closestId acc = Some (fst (sp ! i)) \<and>
        shortestDistance acc = distanceFromOrigin bi (snd (sp ! i)) \<and>
        lessThan_js (distanceFromOrigin bi (snd (sp ! i))) Infinity \<and>
        (\<forall>j<length sp. \<not> lessThan_js (distanceFromOrigin bi (snd (sp ! j)))
                                      (distanceFromOrigin bi (snd (sp ! i)))) \<and>
        (\<forall>j<i. lessThan_js (distanceFromOrigin bi (snd (sp ! i)))
                            (distanceFromOrigin bi (snd (sp ! j))) \<or>
               distanceFromOrigin bi (snd (sp ! j)) = NaN))"


subsection \<open>A concrete line\<close>

text \<open>
  Two stations, trains at them, a train at a station id without a position and a train
  whose station id is the name of an inherited property, and the values needed to render
  them; the instances below are evaluated on these. The example built-ins round the exact
  square and the exact root. Further, bounds that are all \<open>Infinity\<close>, bounds whose bottom
  is the double nearest to 2.004, and a station whose coordinate \<open>2^600\<close> has a square beyond
  the largest double.
\<close>

definition exampleBuiltins :: builtins where
  "exampleBuiltins = \<lparr>numberToString = (\<lambda>v. if v = Finite 0 then ''0'' else ''n''),
                       toLowerCase = (\<lambda>s. s),
                       squareApprox = (\<lambda>r. r * r),
                       sqrtApprox = sqrt\<rparr>"

definition exampleLine :: line where
  "exampleLine = \<lparr>name = ''Green'', color = ''green'', colorSecondary = ''darkgreen'',
                   getStationLabelPosition = (\<lambda>stationId. Some ''right''),
                   shouldLabelTrain = (\<lambda>t. False)\<rparr>"

definition exampleStations :: "(string \<times> point) list" where
  "exampleStations =
     [(''place-lake'', \<lparr>x_pos = Finite 3, y_pos = Finite 4\<rparr>),
      (''place-hymnl'', \<lparr>x_pos = Finite 0, y_pos = Finite 1\<rparr>)]"

definition examplePrerendered :: "nat prerendered" where
  "examplePrerendered =
     \<lparr>pathDirective = ''M 0 1 L 3 4'',
      bounds = \<lparr>top_b = Finite 1, bottom_b = Finite 4, left_b = Finite 0, right_b = Finite 3\<rparr>,
      routes = [1, 2],
      stationPositions = exampleStations,
      stations = [(''place-lake'', \<lparr>station_name = ''Boston College''\<rparr>),
                  (''place-hymnl'', \<lparr>station_name = ''Hynes Convention Center''\<rparr>)]\<rparr>"

definition exampleState :: lineState where
  "exampleState = \<lparr>lineOffset = None, shouldFocusOnFirstTrain = True, container = None\<rparr>"

definition trainAtLake :: "nat trainRoutePair" where
  "trainAtLake = \<lparr>train = \<lparr>label = ''3900'', stationId = ''place-lake''\<rparr>, route = 1\<rparr>"

definition trainNowhere :: "nat trainRoutePair" where
  "trainNowhere = \<lparr>train = \<lparr>label = ''3901'', stationId = ''place-unknown''\<rparr>, route = 2\<rparr>"

definition trainAtHynes :: "nat trainRoutePair" where
  "trainAtHynes = \<lparr>train = \<lparr>label = ''3902'', stationId = ''place-hymnl''\<rparr>, route = 2\<rparr>"

definition trainAtConstructor :: "nat trainRoutePair" where
  "trainAtConstructor = \<lparr>train = \<lparr>label = ''3903'', stationId = ''constructor''\<rparr>, route = 1\<rparr>"

definition exampleStore :: "nat store" where
  "exampleStore = (\<lambda>ref. if ref = 0 then [trainAtLake, trainNowhere, trainAtHynes] else [])"

definition sortedStore :: "nat store" where
  "sortedStore = (\<lambda>ref. if ref = 0 then [trainNowhere, trainAtHynes, trainAtLake] else [])"

definition inheritedStore :: "nat store" where
  "inheritedStore =
     (\<lambda>ref. if ref = 0 then [trainAtLake, trainAtConstructor, trainAtHynes] else [])"

definition infiniteBounds :: bounds where
  "infiniteBounds =
     \<lparr>top_b = Infinity, bottom_b = Infinity, left_b = Infinity, right_b = Infinity\<rparr>"

definition roundingBounds :: bounds where
  "roundingBounds =
     \<lparr>top_b = Finite 0, bottom_b = Finite (4512606826625237 / 2 ^ 51),
      left_b = Finite 0, right_b = Finite 0\<rparr>"

definition farCoordinate :: real where
  "farCoordinate = 2 ^ 600"

definition farStation :: "(string \<times> point) list" where
  "farStation = [(''place-far'', \<lparr>x_pos = Finite farCoordinate, y_pos = Finite 0\<rparr>)]"


section \<open>Properties\<close>

subsection \<open>Station names\<close>


lemma replace_absent: "\<not> sublist pat s \<Longrightarrow> replace pat rep s = s"
proof (induction s)
  case Nil
  then show ?case by auto
next
  case (Cons c cs)
  have "\<not> prefix pat (c # cs)" using Cons.prems prefix_imp_sublist by blast
  moreover have "\<not> sublist pat cs" using Cons.prems by (meson sublist_Cons_right)
  ultimately show ?case using Cons.IH by simp
qed

lemma length_replace:
  "sublist pat s \<Longrightarrow> length (replace pat rep s) + length pat = length s + length rep"
proof (induction s)
  case Nil
  then show ?case by simp
next
  case (Cons c cs)
  show ?case
  proof (cases "prefix pat (c # cs)")
    case True
    then have "length pat \<le> length (c # cs)" by (rule prefix_length_le)
    with True show ?thesis by simp
  next
    case False
    with Cons.prems have "sublist pat cs" by (simp add: sublist_Cons_right)
    with Cons.IH False show ?thesis by simp
  qed
qed

lemma length_replace_le:
  "length rep \<le> length pat \<Longrightarrow> length (replace pat rep s) \<le> length s"
  using length_replace [of pat s rep] replace_absent [of pat s rep]
  by (cases "sublist pat s") auto

lemma length_replace_less:
  "length rep < length pat \<Longrightarrow> sublist pat s \<Longrightarrow> length (replace pat rep s) < length s"
  using length_replace [of pat s rep] by simp

lemma abbreviate_absent: "\<not> containsPattern s \<Longrightarrow> abbreviateStationName s = s"
  by (simp add: containsPattern_def patterns_def abbreviateStationName_def replace_absent)

lemma abbreviate_shorter:
  assumes "containsPattern s"
  shows "length (abbreviateStationName s) < length s"
proof -
  let ?s1 = "replace ''Boston College'' ''B.C.'' s"
  let ?s2 = "replace ''Hynes Convention Center'' ''Hynes'' ?s1"
  let ?s3 = "replace ''Heath Street'' ''Heath'' ?s2"
  have l1: "length ?s1 \<le> length s" by (rule length_replace_le) simp
  have l2: "length ?s2 \<le> length ?s1" by (rule length_replace_le) simp
  have l3: "length ?s3 \<le> length ?s2" by (rule length_replace_le) simp
  have r: "abbreviateStationName s = ?s3" by (simp add: abbreviateStationName_def)
  consider (a) "sublist ''Boston College'' s"
    | (b) "\<not> sublist ''Boston College'' s" "sublist ''Hynes Convention Center'' s"
    | (c) "\<not> sublist ''Boston College'' s" "\<not> sublist ''Hynes Convention Center'' s"
          "sublist ''Heath Street'' s"
    using assms by (auto simp: containsPattern_def patterns_def)
  then show ?thesis
  proof cases
    case a
    then have "length ?s1 < length s" by (intro length_replace_less) simp_all
    with l2 l3 r show ?thesis by simp
  next
    case b
    then have e: "?s1 = s" by (simp add: replace_absent)
    with b have "length ?s2 < length s" by (simp add: length_replace_less)
    with l3 r show ?thesis by simp
  next
    case c
    then have e: "?s1 = s" "?s2 = s" by (simp_all add: replace_absent)
    with c have "length ?s3 < length s" by (simp add: length_replace_less)
    with r show ?thesis by simp
  qed
qed

lemma abbreviate_fixed_iff: "abbreviateStationName s = s \<longleftrightarrow> \<not> containsPattern s"
  using abbreviate_absent [of s] abbreviate_shorter [of s] by auto

text \<open>
  C5 (as amended). \<open>abbreviateStationName\<close> maps "Boston College" to "B.C." and "Hynes
  Convention Center" to "Hynes", and returns every name that contains none of the three
  patterns unchanged. Applying it twice gives the same as applying it once exactly for
  the names whose abbreviation contains none of the patterns; it is not idempotent on
  every string, because only the first occurrence of a pattern is replaced.
\<close>

theorem abbreviate_examples_and_fixed_points:
  "abbreviateStationName ''Boston College'' = ''B.C.'' \<and>
   abbreviateStationName ''Hynes Convention Center'' = ''Hynes'' \<and>
   (\<forall>s. \<not> containsPattern s \<longrightarrow> abbreviateStationName s = s) \<and>
   (\<forall>s. abbreviateStationName (abbreviateStationName s) = abbreviateStationName s
        \<longleftrightarrow> \<not> containsPattern (abbreviateStationName s))"
proof -
  have "abbreviateStationName ''Boston College'' = ''B.C.''"
    by (simp add: abbreviateStationName_def)
  moreover have "abbreviateStationName ''Hynes Convention Center'' = ''Hynes''"
    by (simp add: abbreviateStationName_def)
  ultimately show ?thesis
    using abbreviate_fixed_iff by blast
qed

theorem abbreviate_examples_and_fixed_points_witness:
  "\<not> containsPattern ''Park Street'' \<and> abbreviateStationName ''Park Street'' = ''Park Street'' \<and>
   \<not> containsPattern (abbreviateStationName ''Heath Street'') \<and>
   abbreviateStationName (abbreviateStationName ''Heath Street'') = abbreviateStationName ''Heath Street''"
proof -
  have a: "\<not> containsPattern ''Park Street''"
    by (simp add: containsPattern_def patterns_def sublist_code)
  have b: "\<not> containsPattern (abbreviateStationName ''Heath Street'')"
    by (simp add: abbreviateStationName_def containsPattern_def patterns_def sublist_code)
  from a b abbreviate_examples_and_fixed_points show ?thesis by blast
qed

text \<open>
  The name "Boston College Boston College" is abbreviated to "B.C. Boston College", which
  a second application turns into "B.C. B.C.": the function is not idempotent there.
\<close>

theorem abbreviate_not_idempotent:
  "abbreviateStationName (abbreviateStationName ''Boston College Boston College'')
     \<noteq> abbreviateStationName ''Boston College Boston College''"
  by (simp add: abbreviateStationName_def)


subsection \<open>Rounding to a double\<close>

lemma grid_pos: "0 < grid"
  by (simp add: grid_def)

lemma roundHalfEven_int [simp]: "roundHalfEven (of_int n) = n"
  by (simp add: roundHalfEven_def)

lemma roundHalfEven_cases: "roundHalfEven q = \<lfloor>q\<rfloor> \<or> roundHalfEven q = \<lfloor>q\<rfloor> + 1"
  by (simp add: roundHalfEven_def Let_def)

lemma roundHalfEven_mono:
  assumes "q \<le> r"
  shows "roundHalfEven q \<le> roundHalfEven r"
proof (cases "\<lfloor>q\<rfloor> = \<lfloor>r\<rfloor>")
  case True
  with assms show ?thesis
    by (auto simp: roundHalfEven_def Let_def)
next
  case False
  with assms have "\<lfloor>q\<rfloor> < \<lfloor>r\<rfloor>"
    by (simp add: floor_mono order.not_eq_order_implies_strict)
  moreover have "roundHalfEven q \<le> \<lfloor>q\<rfloor> + 1" using roundHalfEven_cases [of q] by auto
  moreover have "\<lfloor>r\<rfloor> \<le> roundHalfEven r" using roundHalfEven_cases [of r] by auto
  ultimately show ?thesis by linarith
qed

lemma roundHalfEven_le: "q \<le> of_int n \<Longrightarrow> roundHalfEven q \<le> n"
  using roundHalfEven_mono [of q "of_int n"] by simp

lemma roundHalfEven_ge: "of_int n \<le> q \<Longrightarrow> n \<le> roundHalfEven q"
  using roundHalfEven_mono [of "of_int n" q] by simp

lemma below_next_binade:
  assumes "0 \<le> X"
  shows "X < 2 ^ (53 + exponentOf X)"
proof (cases "\<lfloor>X\<rfloor> = 0")
  case True
  then have "X < 1" by linarith
  also have "(1::real) \<le> 2 ^ (53 + exponentOf X)" by simp
  finally show ?thesis .
next
  case False
  moreover from assms have "0 \<le> \<lfloor>X\<rfloor>" by simp
  ultimately have pos: "0 < \<lfloor>X\<rfloor>" by linarith
  from bitlen_bounds [OF pos] have "\<lfloor>X\<rfloor> < 2 ^ nat (bitlen \<lfloor>X\<rfloor>)" by simp
  then have "\<lfloor>X\<rfloor> + 1 \<le> 2 ^ nat (bitlen \<lfloor>X\<rfloor>)" by simp
  then have "real_of_int (\<lfloor>X\<rfloor> + 1) \<le> real_of_int (2 ^ nat (bitlen \<lfloor>X\<rfloor>))"
    by (rule of_int_le_iff [THEN iffD2])
  then have "X < 2 ^ nat (bitlen \<lfloor>X\<rfloor>)" by (simp, linarith)
  also have "(2::real) ^ nat (bitlen \<lfloor>X\<rfloor>) \<le> 2 ^ (53 + exponentOf X)"
    by (rule power_increasing) (simp_all add: exponentOf_def)
  finally show ?thesis .
qed

lemma above_binade:
  assumes "0 < exponentOf X"
  shows "2 ^ (52 + exponentOf X) \<le> X"
proof -
  from assms have b: "53 < bitlen \<lfloor>X\<rfloor>" by (simp add: exponentOf_def)
  then have pos: "0 < \<lfloor>X\<rfloor>" using bitlen_eq_zero_iff [of "\<lfloor>X\<rfloor>"] by (cases "0 < \<lfloor>X\<rfloor>") auto
  from bitlen_bounds [OF pos] have "2 ^ nat (bitlen \<lfloor>X\<rfloor> - 1) \<le> \<lfloor>X\<rfloor>" by simp
  moreover have "nat (bitlen \<lfloor>X\<rfloor> - 1) = 52 + exponentOf X"
    using b by (simp add: exponentOf_def)
  ultimately have "(2::int) ^ (52 + exponentOf X) \<le> \<lfloor>X\<rfloor>" by simp
  then have "real_of_int (2 ^ (52 + exponentOf X)) \<le> real_of_int \<lfloor>X\<rfloor>"
    by (rule of_int_le_iff [THEN iffD2])
  also have "\<dots> \<le> X" by simp
  finally show ?thesis by simp
qed

lemma bitlen_mono: "x \<le> y \<Longrightarrow> bitlen x \<le> bitlen y"
  by (auto simp: bitlen_alt_def intro!: floor_mono)

lemma exponentOf_mono: "X \<le> Y \<Longrightarrow> exponentOf X \<le> exponentOf Y"
  unfolding exponentOf_def
  by (intro nat_mono diff_right_mono bitlen_mono floor_mono)

lemma roundMagnitude_upper:
  assumes "0 \<le> X"
  shows "roundMagnitude X \<le> 2 ^ (53 + exponentOf X)"
proof -
  have "X / 2 ^ exponentOf X \<le> real_of_int (2 ^ 53)"
    using below_next_binade [OF assms] by (simp add: power_add field_simps)
  then have "roundHalfEven (X / 2 ^ exponentOf X) \<le> 2 ^ 53" by (rule roundHalfEven_le)
  then have "roundHalfEven (X / 2 ^ exponentOf X) * 2 ^ exponentOf X \<le> 2 ^ 53 * 2 ^ exponentOf X"
    by (rule mult_right_mono) simp
  then show ?thesis by (simp add: roundMagnitude_def power_add)
qed

lemma roundMagnitude_lower:
  assumes "0 < exponentOf X"
  shows "2 ^ (52 + exponentOf X) \<le> roundMagnitude X"
proof -
  have "real_of_int (2 ^ 52) \<le> X / 2 ^ exponentOf X"
    using above_binade [OF assms] by (simp add: power_add field_simps)
  then have "2 ^ 52 \<le> roundHalfEven (X / 2 ^ exponentOf X)" by (rule roundHalfEven_ge)
  then have "2 ^ 52 * 2 ^ exponentOf X \<le> roundHalfEven (X / 2 ^ exponentOf X) * 2 ^ exponentOf X"
    by (rule mult_right_mono) simp
  then show ?thesis by (simp add: roundMagnitude_def power_add)
qed

lemma roundMagnitude_mono:
  assumes "0 \<le> X" "X \<le> Y"
  shows "roundMagnitude X \<le> roundMagnitude Y"
proof (cases "exponentOf X = exponentOf Y")
  case True
  have "X / 2 ^ exponentOf Y \<le> Y / 2 ^ exponentOf Y"
    using assms by (simp add: divide_right_mono)
  then have "roundHalfEven (X / 2 ^ exponentOf Y) \<le> roundHalfEven (Y / 2 ^ exponentOf Y)"
    by (rule roundHalfEven_mono)
  then show ?thesis
    unfolding roundMagnitude_def True by (rule mult_right_mono) simp
next
  case False
  with exponentOf_mono [OF assms(2)] have lt: "exponentOf X < exponentOf Y" by simp
  have "roundMagnitude X \<le> 2 ^ (53 + exponentOf X)" by (rule roundMagnitude_upper [OF assms(1)])
  also have "(2::int) ^ (53 + exponentOf X) \<le> 2 ^ (52 + exponentOf Y)"
    using lt by (intro power_increasing) simp_all
  also have "\<dots> \<le> roundMagnitude Y" using lt by (intro roundMagnitude_lower) simp
  finally show ?thesis .
qed

lemma roundMagnitude_zero [simp]: "roundMagnitude 0 = 0"
  using roundHalfEven_int [of 0] by (simp add: roundMagnitude_def)

lemma roundMagnitude_nonneg: "0 \<le> X \<Longrightarrow> 0 \<le> roundMagnitude X"
  using roundMagnitude_mono [of 0 X] by simp

lemma scaledRound_mono:
  assumes "x \<le> y"
  shows "scaledRound x \<le> scaledRound y"
proof -
  consider (nn) "0 \<le> x" | (np) "x < 0" "0 \<le> y" | (neg) "x < 0" "y < 0" by linarith
  then show ?thesis
  proof cases
    case nn
    with assms grid_pos have "0 \<le> x * grid" "x * grid \<le> y * grid" "\<not> x < 0" "\<not> y < 0"
      by (simp_all add: mult_right_mono)
    then show ?thesis by (simp add: scaledRound_def roundMagnitude_mono)
  next
    case np
    with grid_pos have "0 \<le> - x * grid" "0 \<le> y * grid" by (simp_all add: mult_nonneg_nonneg mult_nonpos_nonneg)
    then have "0 \<le> roundMagnitude (- x * grid)" "0 \<le> roundMagnitude (y * grid)"
      by (simp_all add: roundMagnitude_nonneg)
    with np show ?thesis by (simp add: scaledRound_def)
  next
    case neg
    with assms grid_pos have "0 \<le> - y * grid" "- y * grid \<le> - x * grid"
      by (simp_all add: mult_right_mono mult_nonpos_nonneg)
    then have "roundMagnitude (- y * grid) \<le> roundMagnitude (- x * grid)"
      by (rule roundMagnitude_mono)
    with neg show ?thesis by (simp add: scaledRound_def)
  qed
qed


text \<open>Exactness on the grid: a scaled value k * 2^j with k below 2^53 is kept.\<close>

lemma roundMagnitude_exact:
  assumes "0 \<le> k" "k < 2 ^ 53"
  shows "roundMagnitude (real_of_int (k * 2 ^ j)) = k * 2 ^ j"
proof (cases "k = 0")
  case True
  then show ?thesis by simp
next
  case False
  with assms have pos: "0 < k" by simp
  define e where "e = exponentOf (real_of_int (k * 2 ^ j))"
  have "bitlen k \<le> 53"
    using assms pos by (simp add: bitlen_le_iff_power)
  moreover have "e = nat (bitlen (k * 2 ^ j) - 53)"
    unfolding e_def exponentOf_def floor_of_int ..
  moreover have "bitlen (k * 2 ^ j) = bitlen k + int j"
    by (rule bitlen_pow2 [OF pos])
  ultimately have le: "e \<le> j" by simp
  then obtain d where j: "j = e + d" using le_Suc_ex by blast
  have "real_of_int (k * 2 ^ j) / 2 ^ e = real_of_int (k * 2 ^ d)"
    by (simp add: j power_add)
  then have "roundHalfEven (real_of_int (k * 2 ^ j) / 2 ^ e) = k * 2 ^ d"
    by (simp only: roundHalfEven_int)
  then show ?thesis
    unfolding roundMagnitude_def e_def [symmetric] by (simp add: j power_add)
qed

lemma scaledRound_int:
  assumes "\<bar>n\<bar> < 2 ^ 53"
  shows "scaledRound (of_int n) = n * 2 ^ gridBits"
proof (cases "n < 0")
  case True
  have "- real_of_int n * grid = real_of_int ((- n) * 2 ^ gridBits)"
    by (simp add: grid_def)
  moreover have "roundMagnitude (real_of_int ((- n) * 2 ^ gridBits)) = (- n) * 2 ^ gridBits"
    using True assms by (intro roundMagnitude_exact) simp_all
  ultimately have "roundMagnitude (- real_of_int n * grid) = (- n) * 2 ^ gridBits"
    by (simp only:)
  with True show ?thesis by (simp add: scaledRound_def)
next
  case False
  have "real_of_int n * grid = real_of_int (n * 2 ^ gridBits)"
    by (simp add: grid_def)
  moreover have "roundMagnitude (real_of_int (n * 2 ^ gridBits)) = n * 2 ^ gridBits"
    using False assms by (intro roundMagnitude_exact) simp_all
  ultimately have "roundMagnitude (real_of_int n * grid) = n * 2 ^ gridBits"
    by (simp only:)
  with False show ?thesis by (simp add: scaledRound_def)
qed

lemma roundToDouble_int:
  assumes "\<bar>n\<bar> < 2 ^ 53"
  shows "roundToDouble (of_int n) = Finite (of_int n)"
proof -
  have "\<bar>n * 2 ^ gridBits\<bar> < (2::int) ^ 53 * 2 ^ gridBits"
    using assms by (simp add: abs_mult)
  also have "(2::int) ^ 53 * 2 ^ gridBits \<le> 2 ^ (maxExponent + gridBits)"
    unfolding power_add [symmetric] by (rule power_increasing) (simp_all add: maxExponent_def)
  finally have "\<bar>n * 2 ^ gridBits\<bar> < overflowBound" by (simp only: overflowBound_def)
  then have "\<not> overflowBound \<le> n * 2 ^ gridBits" "\<not> n * 2 ^ gridBits \<le> - overflowBound"
    by linarith+
  moreover have "real_of_int (n * 2 ^ gridBits) / grid = real_of_int n"
    by (simp add: grid_def)
  ultimately show ?thesis
    unfolding roundToDouble_def scaledRound_int [OF assms] Let_def by (simp only: if_False)
qed

lemma roundToDouble_zero [simp]: "roundToDouble 0 = Finite 0"
  using roundToDouble_int [of 0] by simp

lemma roundToDouble_one [simp]: "roundToDouble 1 = Finite 1"
  using roundToDouble_int [of 1] by simp

lemma roundToDouble_numeral:
  "numeral k < (2::int) ^ 53 \<Longrightarrow> roundToDouble (numeral k) = Finite (numeral k)"
  using roundToDouble_int [of "numeral k"] by simp

lemma roundToDouble_neg_numeral:
  "numeral k < (2::int) ^ 53 \<Longrightarrow> roundToDouble (- numeral k) = Finite (- numeral k)"
  using roundToDouble_int [of "- numeral k"] by simp

text \<open>The smallest step.\<close>

lemma scaledRound_step: "scaledRound (1 / grid) = 1" "scaledRound (- (1 / grid)) = - 1"
proof -
  have "roundMagnitude (real_of_int (1 * 2 ^ 0)) = 1 * 2 ^ 0"
    by (rule roundMagnitude_exact) simp_all
  then have r: "roundMagnitude 1 = 1" by simp
  from grid_pos show "scaledRound (1 / grid) = 1" "scaledRound (- (1 / grid)) = - 1"
    by (simp_all add: scaledRound_def r)
qed

lemma scaledRound_difference:
  assumes "onGrid a" "onGrid b"
  shows "a < b \<Longrightarrow> scaledRound (a - b) < 0"
    and "b < a \<Longrightarrow> 0 < scaledRound (a - b)"
    and "a = b \<Longrightarrow> scaledRound (a - b) = 0"
proof -
  from assms obtain ka kb :: int where ka: "a * grid = of_int ka" and kb: "b * grid = of_int kb"
    unfolding onGrid_def by blast
  have d: "(a - b) * grid = of_int (ka - kb)" by (simp add: left_diff_distrib ka kb)
  show "scaledRound (a - b) < 0" if "a < b"
  proof -
    from that grid_pos have "(a - b) * grid < 0" by (simp add: mult_neg_pos)
    with d have "ka - kb < 0" by (metis of_int_less_0_iff)
    then have "real_of_int (ka - kb) \<le> - 1" by linarith
    with d have "(a - b) * grid \<le> - 1" by simp
    with grid_pos have "a - b \<le> - (1 / grid)" by (simp add: field_simps)
    from scaledRound_mono [OF this] show ?thesis by (simp only: scaledRound_step)
  qed
  show "0 < scaledRound (a - b)" if "b < a"
  proof -
    from that grid_pos have "0 < (a - b) * grid" by simp
    with d have "0 < ka - kb" by (metis of_int_0_less_iff)
    then have "1 \<le> real_of_int (ka - kb)" by linarith
    with d have "1 \<le> (a - b) * grid" by simp
    with grid_pos have "1 / grid \<le> a - b" by (simp add: field_simps)
    from scaledRound_mono [OF this] show ?thesis by (simp only: scaledRound_step)
  qed
  show "scaledRound (a - b) = 0" if "a = b"
    using that by (simp add: scaledRound_def)
qed

lemma roundToDouble_onGrid: "roundToDouble x = Finite r \<Longrightarrow> onGrid r"
  using grid_pos
  by (auto simp: roundToDouble_def Let_def onGrid_def split: if_splits)

lemma onGrid_zero [simp]: "onGrid 0"
  by (simp add: onGrid_def)

text \<open>Overflow.\<close>

lemma roundMagnitude_overflow:
  assumes "2 ^ (maxExponent + gridBits) \<le> X"
  shows "overflowBound \<le> roundMagnitude X"
proof -
  have "(0::real) \<le> 2 ^ (maxExponent + gridBits)" by simp
  with assms have nn: "0 \<le> X" by linarith
  from below_next_binade [OF nn] assms
  have "(2::real) ^ (maxExponent + gridBits) < 2 ^ (53 + exponentOf X)"
    by (rule le_less_trans [rotated])
  then have "maxExponent + gridBits < 53 + exponentOf X"
    by (simp only: power_strict_increasing_iff one_less_numeral_iff semiring_norm)
  then have e: "0 < exponentOf X" "maxExponent + gridBits \<le> 52 + exponentOf X"
    by (simp_all add: maxExponent_def)
  have "(2::int) ^ (maxExponent + gridBits) \<le> 2 ^ (52 + exponentOf X)"
    using e(2) by (intro power_increasing) simp_all
  also have "\<dots> \<le> roundMagnitude X" by (rule roundMagnitude_lower [OF e(1)])
  finally show ?thesis by (simp only: overflowBound_def)
qed

lemma roundToDouble_overflow:
  assumes "2 ^ maxExponent \<le> x"
  shows "roundToDouble x = Infinity"
proof -
  have "(0::real) \<le> 2 ^ maxExponent" by simp
  with assms have nn: "0 \<le> x" by linarith
  have "(2::real) ^ (maxExponent + gridBits) = 2 ^ maxExponent * grid"
    unfolding grid_def by (rule power_add)
  also have "\<dots> \<le> x * grid"
    using assms grid_pos by (intro mult_right_mono) simp_all
  finally have "overflowBound \<le> roundMagnitude (x * grid)" by (rule roundMagnitude_overflow)
  with nn show ?thesis by (simp add: roundToDouble_def scaledRound_def Let_def)
qed

text \<open>Rounding keeps the order, and the result of rounding is never \<open>NaN\<close>.\<close>

lemma roundToDouble_cases:
  "roundToDouble x = Infinity \<and> overflowBound \<le> scaledRound x \<or>
   roundToDouble x = NegInfinity \<and> scaledRound x \<le> - overflowBound \<or>
   roundToDouble x = Finite (of_int (scaledRound x) / grid)"
  by (simp add: roundToDouble_def Let_def)

lemma overflowBound_pos: "0 < overflowBound"
  by (simp add: overflowBound_def)

lemma roundToDouble_ordinary: "ordinary (roundToDouble x)"
  using roundToDouble_cases [of x] roundToDouble_onGrid [of x] by auto

lemma roundToDouble_sign:
  shows "0 < scaledRound x \<Longrightarrow> lessThan_js (Finite 0) (roundToDouble x)"
    and "scaledRound x \<le> 0 \<Longrightarrow> \<not> lessThan_js (Finite 0) (roundToDouble x)"
  using roundToDouble_cases [of x] overflowBound_pos grid_pos
  by (auto simp: field_simps)

lemma roundToDouble_at_least:
  assumes "\<bar>n\<bar> < 2 ^ 53" "0 < n" "of_int n \<le> x"
  shows "roundToDouble x = Infinity \<or> (\<exists>r. roundToDouble x = Finite r \<and> of_int n \<le> r)"
proof -
  from scaledRound_mono [OF assms(3)] have le: "n * 2 ^ gridBits \<le> scaledRound x"
    by (simp only: scaledRound_int [OF assms(1)])
  then have "real_of_int (n * 2 ^ gridBits) \<le> real_of_int (scaledRound x)"
    by (rule of_int_le_iff [THEN iffD2])
  then have "real_of_int n \<le> real_of_int (scaledRound x) / grid"
    by (simp add: grid_def field_simps)
  moreover have "0 < scaledRound x"
    using le assms(2) by (smt (verit) mult_pos_pos zero_less_numeral zero_less_power)
  ultimately show ?thesis
    using roundToDouble_cases [of x] overflowBound_pos by auto
qed

lemma roundToDouble_nonneg:
  assumes "0 \<le> x"
  shows "roundToDouble x = Infinity \<or> (\<exists>r. roundToDouble x = Finite r \<and> 0 \<le> r)"
proof -
  from scaledRound_mono [OF assms] have "0 \<le> scaledRound x"
    by (simp add: scaledRound_def)
  then show ?thesis
    using roundToDouble_cases [of x] overflowBound_pos grid_pos by auto
qed

text \<open>Distance values: the comparator's sign is the order.\<close>

lemma ordinary_squared_sqrt: "mathSqrt bi v \<noteq> NaN \<Longrightarrow> ordinary (mathSqrt bi v)"
  by (cases v) (auto simp: mathSqrt_def roundToDouble_ordinary split: if_splits)

lemma rank_le_iff:
  "a \<noteq> NaN \<Longrightarrow> b \<noteq> NaN \<Longrightarrow> rank a \<le> rank b \<longleftrightarrow> lessEq_js a b"
  by (cases a; cases b) (auto simp: lessEq_js_def)

lemma rank_inject: "rank a = rank b \<longleftrightarrow> a = b"
  by (cases a; cases b) auto

lemma subtraction_sign:
  assumes "ordinary a" "ordinary b"
  shows "lessThan_js (Finite 0) (sortCompare sub a b) \<longleftrightarrow> \<not> rank a \<le> rank b"
proof (cases a)
  case (Finite x)
  note a = this
  show ?thesis
  proof (cases b)
    case (Finite y)
    with a assms have g: "onGrid x" "onGrid y" by simp_all
    have s: "sub (Finite x) (Finite y) = roundToDouble (x - y)" by (simp add: sub_def)
    have nn: "roundToDouble (x - y) \<noteq> NaN" using roundToDouble_cases [of "x - y"] by auto
    then have c: "sortCompare sub (Finite x) (Finite y) = roundToDouble (x - y)"
      by (cases "roundToDouble (x - y)") (simp_all add: sortCompare_def s)
    show ?thesis
    proof (cases "y < x")
      case True
      from scaledRound_difference(2) [OF g True] have "lessThan_js (Finite 0) (roundToDouble (x - y))"
        by (rule roundToDouble_sign(1))
      with True show ?thesis by (simp add: c a Finite)
    next
      case False
      then consider "x < y" | "x = y" by linarith
      then have "scaledRound (x - y) \<le> 0"
        using scaledRound_difference(1,3) [OF g] by cases auto
      then have "\<not> lessThan_js (Finite 0) (roundToDouble (x - y))"
        by (rule roundToDouble_sign(2))
      with False show ?thesis by (simp add: c a Finite)
    qed
  qed (use a assms in \<open>simp_all add: sub_def sortCompare_def\<close>)
qed (use assms in \<open>cases b; simp add: sub_def sortCompare_def\<close>)+

text \<open>Rounding a dyadic fraction \<open>k / 2^j\<close> whose numerator has \<open>53 + s\<close> bits.\<close>

lemma roundToDouble_dyadic:
  assumes "2 ^ (52 + s) \<le> k" "k < 2 ^ (53 + s)" "j \<le> gridBits" "53 + s < maxExponent + j"
  shows "roundToDouble (real_of_int k / 2 ^ j) =
           Finite (real_of_int (roundHalfEven (real_of_int k / 2 ^ s) * 2 ^ s) / 2 ^ j)"
proof -
  from assms(3) obtain g where g: "gridBits = j + g" using le_Suc_ex by blast
  have kpos: "0 < k" using assms(1) by (rule less_le_trans [rotated]) simp
  define m where "m = roundHalfEven (real_of_int k / 2 ^ s)"
  have "real_of_int k < real_of_int (2 ^ (53 + s))"
    using assms(2) by (rule of_int_less_iff [THEN iffD2])
  then have "real_of_int k < 2 ^ 53 * 2 ^ s" by (simp add: power_add)
  then have "real_of_int k / 2 ^ s \<le> real_of_int (2 ^ 53)"
    by (simp add: field_simps)
  then have m_le: "m \<le> 2 ^ 53" unfolding m_def by (rule roundHalfEven_le)
  have "real_of_int 0 \<le> real_of_int k / 2 ^ s" using kpos by simp
  then have m_ge: "0 \<le> m" unfolding m_def by (rule roundHalfEven_ge)
  have b: "bitlen k = int (52 + s) + 1"
  proof -
    have "(2::int) ^ (53 + s) = 2 * 2 ^ (52 + s)" by (simp add: power_add)
    with assms(2) have "k - 2 ^ (52 + s) < 2 ^ (52 + s)" by linarith
    moreover from assms(1) have "0 \<le> k - 2 ^ (52 + s)" by linarith
    ultimately have "bitlen (2 ^ (52 + s) + (k - 2 ^ (52 + s))) = int (52 + s) + 1"
      using bitlen_twopow_add_eq [of "k - 2 ^ (52 + s)" "52 + s"] by simp
    then show ?thesis by simp
  qed
  have x: "real_of_int k / 2 ^ j * grid = real_of_int (k * 2 ^ g)"
    by (simp add: grid_def g power_add)
  have e: "exponentOf (real_of_int (k * 2 ^ g)) = g + s"
    unfolding exponentOf_def floor_of_int bitlen_pow2 [OF kpos] b by simp
  have "real_of_int (k * 2 ^ g) / 2 ^ (g + s) = real_of_int k / 2 ^ s"
    by (simp add: power_add)
  then have r: "roundMagnitude (real_of_int (k * 2 ^ g)) = m * 2 ^ (g + s)"
    unfolding roundMagnitude_def e m_def by (simp only:)
  have nonneg: "\<not> real_of_int k / 2 ^ j < 0" using kpos by (simp add: not_less)
  have z: "scaledRound (real_of_int k / 2 ^ j) = m * 2 ^ (g + s)"
    unfolding scaledRound_def using nonneg by (simp only: if_False x r)
  have "m * 2 ^ (g + s) \<le> 2 ^ 53 * 2 ^ (g + s)"
    using m_le by (rule mult_right_mono) simp
  also have "(2::int) ^ 53 * 2 ^ (g + s) < 2 ^ (maxExponent + gridBits)"
    unfolding power_add [symmetric] using assms(4) by (intro power_strict_increasing) (simp_all add: g)
  finally have small: "\<not> overflowBound \<le> m * 2 ^ (g + s)"
    by (simp add: overflowBound_def)
  have "0 \<le> m * 2 ^ (g + s)" using m_ge by simp
  with overflowBound_pos have notneg: "\<not> m * 2 ^ (g + s) \<le> - overflowBound" by linarith
  have v: "real_of_int (m * 2 ^ (g + s)) / grid = real_of_int (m * 2 ^ s) / 2 ^ j"
    by (simp add: grid_def g power_add)
  have "roundToDouble (real_of_int k / 2 ^ j) = Finite (real_of_int (m * 2 ^ s) / 2 ^ j)"
    unfolding roundToDouble_def z Let_def using small notneg
    by (simp only: if_False v)
  then show ?thesis unfolding m_def .
qed

lemma height_by_steps:
  "add (add (sub (Finite (4512606826625237 / 2 ^ 51)) (Finite 0)) (Finite 5)) (Finite 10)
     = Finite (4786200503987994 / 2 ^ 48)"
  and height_at_once:
  "add (sub (Finite (4512606826625237 / 2 ^ 51)) (Finite 0)) (Finite 15)
     = Finite (4786200503987995 / 2 ^ 48)"
proof -
  have r0: "roundToDouble (real_of_int 4512606826625237 / 2 ^ 51)
              = Finite (4512606826625237 / 2 ^ 51)"
    by (subst roundToDouble_dyadic [where s = 0])
       (simp_all add: gridBits_def maxExponent_def roundHalfEven_def)
  have r1: "roundToDouble (real_of_int 15771605895051477 / 2 ^ 51)
              = Finite (7885802947525738 / 2 ^ 50)"
    by (subst roundToDouble_dyadic [where s = 1])
       (simp_all add: gridBits_def maxExponent_def roundHalfEven_def)
  have r2: "roundToDouble (real_of_int 19144802015951978 / 2 ^ 50)
              = Finite (4786200503987994 / 2 ^ 48)"
    by (subst roundToDouble_dyadic [where s = 2])
       (simp_all add: gridBits_def maxExponent_def roundHalfEven_def)
  have r3: "roundToDouble (real_of_int 38289604031903957 / 2 ^ 51)
              = Finite (4786200503987995 / 2 ^ 48)"
    by (subst roundToDouble_dyadic [where s = 3])
       (simp_all add: gridBits_def maxExponent_def roundHalfEven_def)
  have s0: "sub (Finite (4512606826625237 / 2 ^ 51)) (Finite 0) = Finite (4512606826625237 / 2 ^ 51)"
    using r0 by (simp add: sub_def)
  have a1: "(4512606826625237 / 2 ^ 51 + 5 :: real) = real_of_int 15771605895051477 / 2 ^ 51"
    by simp
  have a2: "(7885802947525738 / 2 ^ 50 + 10 :: real) = real_of_int 19144802015951978 / 2 ^ 50"
    by simp
  have a3: "(4512606826625237 / 2 ^ 51 + 15 :: real) = real_of_int 38289604031903957 / 2 ^ 51"
    by simp
  show "add (add (sub (Finite (4512606826625237 / 2 ^ 51)) (Finite 0)) (Finite 5)) (Finite 10)
     = Finite (4786200503987994 / 2 ^ 48)"
    by (simp only: s0 add.simps a1 r1 a2 r2)
  show "add (sub (Finite (4512606826625237 / 2 ^ 51)) (Finite 0)) (Finite 15)
     = Finite (4786200503987995 / 2 ^ 48)"
    by (simp only: s0 add.simps a3 r3)
qed


subsection \<open>The viewbox\<close>

lemma padding_product: "mul (Finite 50) (Finite 2) = Finite 100"
  by (simp add: roundToDouble_numeral)

lemma difference_nonneg:
  assumes "greaterEq_js (Finite r) (Finite l)"
  shows "sub (Finite r) (Finite l) = Infinity \<or> (\<exists>w. sub (Finite r) (Finite l) = Finite w \<and> 0 \<le> w)"
proof -
  from assms have "0 \<le> r + - l" by (auto simp: greaterEq_js_def lessEq_js_def)
  from roundToDouble_nonneg [OF this] show ?thesis by (simp add: sub_def)
qed

lemma add_at_least:
  assumes "v = Infinity \<or> (\<exists>w. v = Finite w \<and> of_int m \<le> w)"
    and "0 < m + n" "\<bar>m + n\<bar> < 2 ^ 53"
  shows "add v (Finite (of_int n)) = Infinity \<or>
         (\<exists>w. add v (Finite (of_int n)) = Finite w \<and> of_int (m + n) \<le> w)"
proof -
  from assms(1) consider "v = Infinity" | w where "v = Finite w" "of_int m \<le> w" by blast
  then show ?thesis
  proof cases
    case 1
    then show ?thesis by simp
  next
    case 2
    then have "real_of_int (m + n) \<le> w + of_int n" by simp
    from roundToDouble_at_least [OF assms(3,2) this] 2(1) show ?thesis by simp
  qed
qed

lemma positive_if_at_least:
  "v = Infinity \<or> (\<exists>w. v = Finite w \<and> of_int m \<le> w) \<Longrightarrow> 0 < m \<Longrightarrow> lessThan_js (Finite 0) v"
  by auto

lemma viewbox_positive:
  assumes "isFinite (left_b b)" "isFinite (right_b b)" "greaterEq_js (right_b b) (left_b b)"
  shows "lessThan_js (Finite 0) (width (viewboxNumbers b))"
proof -
  from assms obtain l r where lr: "left_b b = Finite l" "right_b b = Finite r"
    by (cases "left_b b"; cases "right_b b") auto
  with assms(3) have "sub (Finite r) (Finite l) = Infinity \<or>
      (\<exists>w. sub (Finite r) (Finite l) = Finite w \<and> of_int 0 \<le> w)"
    using difference_nonneg [of r l] by simp
  from add_at_least [OF this, of 100]
  have "add (sub (Finite r) (Finite l)) (Finite 100) = Infinity \<or>
        (\<exists>w. add (sub (Finite r) (Finite l)) (Finite 100) = Finite w \<and> of_int 100 \<le> w)"
    by simp
  then have "lessThan_js (Finite 0) (add (sub (Finite r) (Finite l)) (Finite 100))"
    by (rule positive_if_at_least) simp
  then show ?thesis
    by (simp add: viewboxNumbers_def Let_def lr roundToDouble_numeral)
qed

lemma viewbox_height_positive:
  assumes "isFinite (top_b b)" "isFinite (bottom_b b)" "greaterEq_js (bottom_b b) (top_b b)"
  shows "lessThan_js (Finite 0) (height (viewboxNumbers b))"
proof -
  from assms obtain t u where tu: "top_b b = Finite t" "bottom_b b = Finite u"
    by (cases "top_b b"; cases "bottom_b b") auto
  with assms(3) have "sub (Finite u) (Finite t) = Infinity \<or>
      (\<exists>w. sub (Finite u) (Finite t) = Finite w \<and> of_int 0 \<le> w)"
    using difference_nonneg [of u t] by simp
  from add_at_least [OF this, of 5]
  have "add (sub (Finite u) (Finite t)) (Finite 5) = Infinity \<or>
        (\<exists>w. add (sub (Finite u) (Finite t)) (Finite 5) = Finite w \<and> of_int 5 \<le> w)"
    by simp
  from add_at_least [OF this, of 10]
  have "add (add (sub (Finite u) (Finite t)) (Finite 5)) (Finite 10) = Infinity \<or>
        (\<exists>w. add (add (sub (Finite u) (Finite t)) (Finite 5)) (Finite 10) = Finite w \<and>
             of_int 15 \<le> w)"
    by simp
  then have "lessThan_js (Finite 0) (add (add (sub (Finite u) (Finite t)) (Finite 5)) (Finite 10))"
    by (rule positive_if_at_least) simp
  then show ?thesis
    by (simp add: viewboxNumbers_def Let_def tu)
qed

text \<open>
  C2 (as amended). For every bounds the viewbox has \<open>minX = left - 50\<close>, \<open>minY = top - 5\<close>,
  \<open>width = (right - left) + 100\<close> and \<open>height = ((bottom - top) + 5) + 10\<close>, each operation
  rounded to a double as the code computes it (the height need not be the double
  \<open>(bottom - top) + 15\<close>), and the returned string is these four numbers joined by spaces.
  For every bounds with four finite fields, \<open>right >= left\<close> and \<open>bottom >= top\<close>, width and
  height are strictly positive.
\<close>

theorem viewbox_numbers_and_positive:
  "minX (viewboxNumbers b) = sub (left_b b) (Finite 50) \<and>
   minY (viewboxNumbers b) = sub (top_b b) (Finite 5) \<and>
   width (viewboxNumbers b) = add (sub (right_b b) (left_b b)) (Finite 100) \<and>
   height (viewboxNumbers b) = add (add (sub (bottom_b b) (top_b b)) (Finite 5)) (Finite 10) \<and>
   renderViewboxForBounds bi b =
     numberToString bi (sub (left_b b) (Finite 50)) @ '' '' @
     numberToString bi (sub (top_b b) (Finite 5)) @ '' '' @
     numberToString bi (add (sub (right_b b) (left_b b)) (Finite 100)) @ '' '' @
     numberToString bi (add (add (sub (bottom_b b) (top_b b)) (Finite 5)) (Finite 10)) \<and>
   (isFinite (left_b b) \<and> isFinite (right_b b) \<and> isFinite (top_b b) \<and> isFinite (bottom_b b) \<and>
    greaterEq_js (right_b b) (left_b b) \<and> greaterEq_js (bottom_b b) (top_b b) \<longrightarrow>
      lessThan_js (Finite 0) (width (viewboxNumbers b)) \<and>
      lessThan_js (Finite 0) (height (viewboxNumbers b)))"
proof -
  have "minX (viewboxNumbers b) = sub (left_b b) (Finite 50)"
    "minY (viewboxNumbers b) = sub (top_b b) (Finite 5)"
    "width (viewboxNumbers b) = add (sub (right_b b) (left_b b)) (Finite 100)"
    "height (viewboxNumbers b) = add (add (sub (bottom_b b) (top_b b)) (Finite 5)) (Finite 10)"
    by (simp_all add: viewboxNumbers_def Let_def roundToDouble_numeral)
  then show ?thesis
    using viewbox_positive [of b] viewbox_height_positive [of b]
    by (simp add: renderViewboxForBounds_def viewboxTemplate_def)
qed

theorem viewbox_numbers_and_positive_witness:
  "isFinite (left_b (bounds examplePrerendered)) \<and> isFinite (right_b (bounds examplePrerendered)) \<and>
   isFinite (top_b (bounds examplePrerendered)) \<and> isFinite (bottom_b (bounds examplePrerendered)) \<and>
   greaterEq_js (right_b (bounds examplePrerendered)) (left_b (bounds examplePrerendered)) \<and>
   greaterEq_js (bottom_b (bounds examplePrerendered)) (top_b (bounds examplePrerendered)) \<and>
   width (viewboxNumbers (bounds examplePrerendered)) = Finite 103 \<and>
   height (viewboxNumbers (bounds examplePrerendered)) = Finite 18 \<and>
   lessThan_js (Finite 0) (width (viewboxNumbers (bounds examplePrerendered))) \<and>
   lessThan_js (Finite 0) (height (viewboxNumbers (bounds examplePrerendered)))"
proof -
  have b: "bounds examplePrerendered =
             \<lparr>top_b = Finite 1, bottom_b = Finite 4, left_b = Finite 0, right_b = Finite 3\<rparr>"
    by (simp add: examplePrerendered_def)
  have w: "add (sub (Finite 3) (Finite 0)) (Finite 100) = Finite 103"
    "add (add (sub (Finite 4) (Finite 1)) (Finite 5)) (Finite 10) = Finite 18"
    by (simp_all add: sub_def roundToDouble_numeral)
  from viewbox_numbers_and_positive [of "bounds examplePrerendered" exampleBuiltins]
  show ?thesis
    unfolding b by (simp add: w greaterEq_js_def lessEq_js_def)
qed

text \<open>
  Bounds that are all \<open>Infinity\<close> have \<open>right >= left\<close> and \<open>bottom >= top\<close>, but width and
  height are \<open>NaN\<close>, which is not greater than 0. And for \<open>top = 0\<close> and \<open>bottom\<close> the
  double nearest to 2.004 the height, 17.003999999999998, is not the double
  \<open>bottom - top + 15\<close>, 17.004: each of the two additions of the code rounds down.
\<close>

theorem viewbox_not_positive_at_infinity:
  "greaterEq_js (right_b infiniteBounds) (left_b infiniteBounds) \<and>
   greaterEq_js (bottom_b infiniteBounds) (top_b infiniteBounds) \<and>
   width (viewboxNumbers infiniteBounds) = NaN \<and>
   height (viewboxNumbers infiniteBounds) = NaN \<and>
   \<not> lessThan_js (Finite 0) (width (viewboxNumbers infiniteBounds)) \<and>
   \<not> lessThan_js (Finite 0) (height (viewboxNumbers infiniteBounds)) \<and>
   height (viewboxNumbers roundingBounds) = Finite (4786200503987994 / 2 ^ 48) \<and>
   add (sub (bottom_b roundingBounds) (top_b roundingBounds)) (Finite 15)
     = Finite (4786200503987995 / 2 ^ 48) \<and>
   height (viewboxNumbers roundingBounds)
     \<noteq> add (sub (bottom_b roundingBounds) (top_b roundingBounds)) (Finite 15)"
proof -
  have inf: "greaterEq_js (right_b infiniteBounds) (left_b infiniteBounds)"
    "greaterEq_js (bottom_b infiniteBounds) (top_b infiniteBounds)"
    "width (viewboxNumbers infiniteBounds) = NaN"
    "height (viewboxNumbers infiniteBounds) = NaN"
    by (simp_all add: infiniteBounds_def viewboxNumbers_def Let_def sub_def greaterEq_js_def
          lessEq_js_def)
  have f: "bottom_b roundingBounds = Finite (4512606826625237 / 2 ^ 51)"
    "top_b roundingBounds = Finite 0"
    by (simp_all only: roundingBounds_def bounds.simps)
  have h: "height (viewboxNumbers roundingBounds) = Finite (4786200503987994 / 2 ^ 48)"
    unfolding viewboxNumbers_def Let_def viewbox.simps f by (rule height_by_steps)
  have o: "add (sub (bottom_b roundingBounds) (top_b roundingBounds)) (Finite 15)
             = Finite (4786200503987995 / 2 ^ 48)"
    unfolding f by (rule height_at_once)
  have "Finite (4786200503987994 / 2 ^ 48) \<noteq> Finite (4786200503987995 / 2 ^ 48)"
    by simp
  with inf h o show ?thesis by (simp only: lessThan_js.simps not_False_eq_True simp_thms)
qed


subsection \<open>The closest station\<close>

lemma lessThan_js_trans: "lessThan_js a b \<Longrightarrow> lessThan_js b c \<Longrightarrow> lessThan_js a c"
  by (cases a; cases b; cases c) auto

lemma lessThan_js_irrefl [simp]: "\<not> lessThan_js a a"
  by (cases a) auto

lemma lessThan_js_below:
  "lessThan_js a b \<Longrightarrow> \<not> lessThan_js c b \<Longrightarrow> lessThan_js a c \<or> c = NaN"
  by (cases a; cases b; cases c) auto

lemma not_below_Infinity: "\<not> lessThan_js a Infinity \<Longrightarrow> \<not> lessThan_js a b"
  by (cases a; cases b) auto

lemma below_Infinity: "lessThan_js a b \<Longrightarrow> lessThan_js a Infinity"
  by (cases a; cases b) auto

lemma closestStep_eq:
  "closestStep bi acc entry =
     (if lessThan_js (distanceFromOrigin bi (snd entry)) (shortestDistance acc)
      then \<lparr>closestId = Some (fst entry),
            shortestDistance = distanceFromOrigin bi (snd entry)\<rparr>
      else acc)"
  by (simp add: closestStep_def distanceFromOrigin_def Let_def)

lemma scan_empty: "scanInvariant bi [] \<lparr>closestId = None, shortestDistance = Infinity\<rparr>"
  by (simp add: scanInvariant_def)

lemma scan_step:
  assumes "scanInvariant bi sp acc"
  shows "scanInvariant bi (sp @ [e]) (closestStep bi acc e)"
proof -
  let ?d = "\<lambda>q. distanceFromOrigin bi (snd q)"
  from assms consider
      (none) "\<forall>j<length sp. \<not> lessThan_js (?d (sp ! j)) Infinity"
             "acc = \<lparr>closestId = None, shortestDistance = Infinity\<rparr>"
    | (some) i where "i < length sp" "closestId acc = Some (fst (sp ! i))"
             "shortestDistance acc = ?d (sp ! i)" "lessThan_js (?d (sp ! i)) Infinity"
             "\<forall>j<length sp. \<not> lessThan_js (?d (sp ! j)) (?d (sp ! i))"
             "\<forall>j<i. lessThan_js (?d (sp ! i)) (?d (sp ! j)) \<or> ?d (sp ! j) = NaN"
    unfolding scanInvariant_def by blast
  then show ?thesis
  proof cases
    case none
    show ?thesis
    proof (cases "lessThan_js (?d e) Infinity")
      case True
      then have step: "closestStep bi acc e = \<lparr>closestId = Some (fst e), shortestDistance = ?d e\<rparr>"
        by (simp add: closestStep_eq none(2))
      have a: "\<forall>j<length (sp @ [e]). \<not> lessThan_js (?d ((sp @ [e]) ! j)) (?d e)"
        using none(1) by (auto simp: nth_append less_Suc_eq not_below_Infinity)
      have "\<forall>j<length sp. ?d (sp ! j) = Infinity \<or> ?d (sp ! j) = NaN"
      proof (intro allI impI)
        fix j assume "j < length sp"
        with none(1) have "\<not> lessThan_js (?d (sp ! j)) Infinity" by simp
        then show "?d (sp ! j) = Infinity \<or> ?d (sp ! j) = NaN"
          by (cases "?d (sp ! j)") auto
      qed
      with True have b: "\<forall>j<length sp. lessThan_js (?d e) (?d ((sp @ [e]) ! j)) \<or>
                             ?d ((sp @ [e]) ! j) = NaN"
        by (auto simp: nth_append)
      show ?thesis
        unfolding scanInvariant_def step
        using True a b by (intro disjI2 exI [of _ "length sp"]) simp
    next
      case False
      then have step: "closestStep bi acc e = acc"
        by (simp add: closestStep_eq none(2))
      have "\<forall>j<length (sp @ [e]). \<not> lessThan_js (?d ((sp @ [e]) ! j)) Infinity"
        using none(1) False by (auto simp: nth_append less_Suc_eq)
      then show ?thesis
        unfolding scanInvariant_def step using none(2) by blast
    qed
  next
    case some
    show ?thesis
    proof (cases "lessThan_js (?d e) (?d (sp ! i))")
      case True
      then have step: "closestStep bi acc e = \<lparr>closestId = Some (fst e), shortestDistance = ?d e\<rparr>"
        by (simp add: closestStep_eq some(3))
      have a: "\<forall>j<length (sp @ [e]). \<not> lessThan_js (?d ((sp @ [e]) ! j)) (?d e)"
      proof (intro allI impI)
        fix j assume j: "j < length (sp @ [e])"
        show "\<not> lessThan_js (?d ((sp @ [e]) ! j)) (?d e)"
        proof (cases "j < length sp")
          case True
          with some(5) have "\<not> lessThan_js (?d (sp ! j)) (?d (sp ! i))" by simp
          with \<open>lessThan_js (?d e) (?d (sp ! i))\<close> lessThan_js_trans
          have "\<not> lessThan_js (?d (sp ! j)) (?d e)" by blast
          with True show ?thesis by (simp add: nth_append)
        next
          case False
          with j have "j = length sp" by simp
          then show ?thesis by (cases "?d e") simp_all
        qed
      qed
      have b: "\<forall>j<length sp. lessThan_js (?d e) (?d ((sp @ [e]) ! j)) \<or>
                   ?d ((sp @ [e]) ! j) = NaN"
      proof (intro allI impI)
        fix j assume j: "j < length sp"
        with some(5) have "\<not> lessThan_js (?d (sp ! j)) (?d (sp ! i))" by simp
        from lessThan_js_below [OF True this] j
        show "lessThan_js (?d e) (?d ((sp @ [e]) ! j)) \<or> ?d ((sp @ [e]) ! j) = NaN"
          by (simp add: nth_append)
      qed
      from True have "lessThan_js (?d e) Infinity" by (rule below_Infinity)
      then show ?thesis
        unfolding scanInvariant_def step
        using a b by (intro disjI2 exI [of _ "length sp"]) simp
    next
      case False
      then have step: "closestStep bi acc e = acc"
        by (simp add: closestStep_eq some(3))
      have "\<forall>j<length (sp @ [e]). \<not> lessThan_js (?d ((sp @ [e]) ! j)) (?d (sp ! i))"
        using False some(5) by (auto simp: nth_append less_Suc_eq)
      then show ?thesis
        unfolding scanInvariant_def step
        using some by (intro disjI2 exI [of _ i]) (simp add: nth_append)
    qed
  qed
qed

lemma scan_invariant:
  "scanInvariant bi sp
     (foldl (closestStep bi) \<lparr>closestId = None, shortestDistance = Infinity\<rparr> sp)"
  by (induction sp rule: rev_induct) (simp_all add: scan_empty scan_step)

text \<open>
  C6 (as amended). \<open>findClosestStationToTop\<close> returns \<open>null\<close> for the empty mapping. For a
  single-entry mapping it returns that entry's id when the entry's computed distance is
  below \<open>Infinity\<close>, and \<open>null\<close> when the distance is \<open>Infinity\<close> or \<open>NaN\<close>. In general it
  returns \<open>null\<close> when no entry has a distance below \<open>Infinity\<close>, and otherwise the id of
  the first entry, in enumeration order, whose distance is minimal: no entry is closer, and
  every earlier entry is strictly farther or has the distance \<open>NaN\<close>.
\<close>

theorem closest_first_minimum:
  "findClosestStationToTop bi [] = None \<and>
   (\<forall>k p. findClosestStationToTop bi [(k, p)] =
            (if lessThan_js (distanceFromOrigin bi p) Infinity then Some k else None)) \<and>
   (\<forall>sp. (\<forall>j<length sp. \<not> lessThan_js (distanceFromOrigin bi (snd (sp ! j))) Infinity) \<longrightarrow>
          findClosestStationToTop bi sp = None) \<and>
   (\<forall>sp. (\<exists>j<length sp. lessThan_js (distanceFromOrigin bi (snd (sp ! j))) Infinity) \<longrightarrow>
      (\<exists>i<length sp.
         findClosestStationToTop bi sp = Some (fst (sp ! i)) \<and>
         lessThan_js (distanceFromOrigin bi (snd (sp ! i))) Infinity \<and>
         (\<forall>j<length sp. \<not> lessThan_js (distanceFromOrigin bi (snd (sp ! j)))
                                       (distanceFromOrigin bi (snd (sp ! i)))) \<and>
         (\<forall>j<i. lessThan_js (distanceFromOrigin bi (snd (sp ! i)))
                             (distanceFromOrigin bi (snd (sp ! j))) \<or>
                distanceFromOrigin bi (snd (sp ! j)) = NaN)))"
proof -
  have e: "findClosestStationToTop bi [] = None"
    by (simp add: findClosestStationToTop_def)
  have s: "findClosestStationToTop bi [(k, p)] =
            (if lessThan_js (distanceFromOrigin bi p) Infinity then Some k else None)" for k p
    by (simp add: findClosestStationToTop_def closestStep_eq)
  have n: "findClosestStationToTop bi sp = None"
    if "\<forall>j<length sp. \<not> lessThan_js (distanceFromOrigin bi (snd (sp ! j))) Infinity" for sp
    using scan_invariant [of bi sp] that
    unfolding scanInvariant_def findClosestStationToTop_def by auto
  have g: "\<exists>i<length sp.
         findClosestStationToTop bi sp = Some (fst (sp ! i)) \<and>
         lessThan_js (distanceFromOrigin bi (snd (sp ! i))) Infinity \<and>
         (\<forall>j<length sp. \<not> lessThan_js (distanceFromOrigin bi (snd (sp ! j)))
                                       (distanceFromOrigin bi (snd (sp ! i)))) \<and>
         (\<forall>j<i. lessThan_js (distanceFromOrigin bi (snd (sp ! i)))
                             (distanceFromOrigin bi (snd (sp ! j))) \<or>
                distanceFromOrigin bi (snd (sp ! j)) = NaN)"
    if "\<exists>j<length sp. lessThan_js (distanceFromOrigin bi (snd (sp ! j))) Infinity" for sp
    using scan_invariant [of bi sp] that
    unfolding scanInvariant_def findClosestStationToTop_def by blast
  from e s n g show ?thesis by blast
qed

lemma sqrt_25: "sqrt 25 = 5"
  by (rule real_sqrt_unique) simp_all

lemma distance_lake:
  "distanceFromOrigin exampleBuiltins \<lparr>x_pos = Finite 3, y_pos = Finite 4\<rparr> = Finite 5"
  by (simp add: distanceFromOrigin_def squared_def mathSqrt_def exampleBuiltins_def
        roundToDouble_numeral sqrt_25)

lemma distance_hynes:
  "distanceFromOrigin exampleBuiltins \<lparr>x_pos = Finite 0, y_pos = Finite 1\<rparr> = Finite 1"
  by (simp add: distanceFromOrigin_def squared_def mathSqrt_def exampleBuiltins_def)

lemma far_square: "roundToDouble (farCoordinate * farCoordinate) = Infinity"
proof (rule roundToDouble_overflow)
  have "(2::real) ^ maxExponent \<le> 2 ^ (600 + 600)"
    by (rule power_increasing) (simp_all add: maxExponent_def)
  then show "2 ^ maxExponent \<le> farCoordinate * farCoordinate"
    unfolding farCoordinate_def by (simp only: power_add)
qed

lemma distance_far:
  "distanceFromOrigin exampleBuiltins \<lparr>x_pos = Finite farCoordinate, y_pos = Finite 0\<rparr> = Infinity"
  by (simp add: distanceFromOrigin_def squared_def mathSqrt_def exampleBuiltins_def far_square)

theorem closest_first_minimum_witness:
  "lessThan_js (distanceFromOrigin exampleBuiltins \<lparr>x_pos = Finite 3, y_pos = Finite 4\<rparr>) Infinity \<and>
   findClosestStationToTop exampleBuiltins [(''place-lake'', \<lparr>x_pos = Finite 3, y_pos = Finite 4\<rparr>)]
     = Some ''place-lake'' \<and>
   (\<exists>j<length exampleStations.
      lessThan_js (distanceFromOrigin exampleBuiltins (snd (exampleStations ! j))) Infinity) \<and>
   (\<exists>i<length exampleStations.
      findClosestStationToTop exampleBuiltins exampleStations = Some (fst (exampleStations ! i)) \<and>
      lessThan_js (distanceFromOrigin exampleBuiltins (snd (exampleStations ! i))) Infinity \<and>
      (\<forall>j<length exampleStations.
         \<not> lessThan_js (distanceFromOrigin exampleBuiltins (snd (exampleStations ! j)))
                        (distanceFromOrigin exampleBuiltins (snd (exampleStations ! i)))) \<and>
      (\<forall>j<i. lessThan_js (distanceFromOrigin exampleBuiltins (snd (exampleStations ! i)))
                          (distanceFromOrigin exampleBuiltins (snd (exampleStations ! j))) \<or>
             distanceFromOrigin exampleBuiltins (snd (exampleStations ! j)) = NaN))"
proof -
  have l: "lessThan_js (distanceFromOrigin exampleBuiltins \<lparr>x_pos = Finite 3, y_pos = Finite 4\<rparr>)
             Infinity"
    by (simp add: distance_lake)
  then have "lessThan_js (distanceFromOrigin exampleBuiltins (snd (exampleStations ! 0))) Infinity"
    by (simp add: exampleStations_def)
  then have h: "\<exists>j<length exampleStations.
      lessThan_js (distanceFromOrigin exampleBuiltins (snd (exampleStations ! j))) Infinity"
    by (intro exI [of _ 0]) (simp add: exampleStations_def)
  from closest_first_minimum [of exampleBuiltins] l
  have "findClosestStationToTop exampleBuiltins
          [(''place-lake'', \<lparr>x_pos = Finite 3, y_pos = Finite 4\<rparr>)] = Some ''place-lake''"
    by simp
  with closest_first_minimum [of exampleBuiltins] h l show ?thesis by blast
qed

text \<open>
  A single station at \<open>x = 2^600\<close>, \<open>y = 0\<close>: the square overflows to \<open>Infinity\<close>, so does the
  distance, \<open>Infinity < Infinity\<close> is false, and the result is \<open>null\<close>, not the entry's id.
\<close>

theorem closest_null_for_far_station:
  "length farStation = 1 \<and>
   distanceFromOrigin exampleBuiltins (snd (farStation ! 0)) = Infinity \<and>
   findClosestStationToTop exampleBuiltins farStation = None"
  by (simp add: farStation_def findClosestStationToTop_def closestStep_eq distance_far)


subsection \<open>Ordering the trains\<close>

text \<open>
  The callback never throws, the map holds the distance of every pair of the array, and
  when no distance is \<open>NaN\<close> the sort of the model is the stable insertion sort by the rank
  of the distance.
\<close>

lemma mapArray_total:
  "(\<And>a. a \<in> set as \<Longrightarrow> f a = Inr (g a)) \<Longrightarrow> mapArray f as = Inr (map g as)"
  by (induction as) simp_all

lemma distanceEntry_total:
  "distanceEntry bi sp pair = Inr (pair, trainDistance bi sp pair)"
  by (cases "getProperty sp (stationId (train pair))")
     (simp_all add: distanceEntry_def trainDistance_def destructurePoint_def
        distanceFromOrigin_def squared_def mathSqrt_def)

lemma trainDistance_ordinary:
  "trainDistance bi sp pair \<noteq> NaN \<Longrightarrow> ordinary (trainDistance bi sp pair)"
  by (cases "getProperty sp (stationId (train pair))")
     (simp_all add: trainDistance_def distanceFromOrigin_def ordinary_squared_sqrt onGrid_def)

lemma newMap_snoc:
  "newMap (entries @ [entry]) = (newMap entries)(fst entry \<mapsto> snd entry)"
  by (simp add: newMap_def)

lemma newMap_lookup:
  "a \<in> set as \<Longrightarrow> newMap (map (\<lambda>p. (p, f p)) as) a = Some (f a)"
proof (induction as rule: rev_induct)
  case Nil
  then show ?case by simp
next
  case (snoc b bs)
  then show ?case by (cases "a = b") (auto simp: newMap_snoc)
qed

lemma compareFn_distanceMap:
  "a \<in> set as \<Longrightarrow> b \<in> set as \<Longrightarrow>
   sortCompare (compareFn (newMap (map (\<lambda>p. (p, f p)) as))) a b = sortCompare sub (f a) (f b)"
  by (simp add: sortCompare_def compareFn_def newMap_lookup)

lemma mset_insertSorted: "mset (insertSorted c a bs) = add_mset a (mset bs)"
  by (induction bs) simp_all

lemma mset_arraySort: "mset (arraySort c as) = mset as"
  by (induction as) (simp_all add: arraySort_def mset_insertSorted)

lemma insertSorted_insort_key:
  "(\<And>b. b \<in> set bs \<Longrightarrow>
      lessThan_js (Finite 0) (sortCompare c a b) \<longleftrightarrow> \<not> k a \<le> k b) \<Longrightarrow>
   insertSorted c a bs = insort_key k a bs"
  by (induction bs) simp_all

lemma arraySort_sort_key:
  "(\<And>a b. a \<in> set as \<Longrightarrow> b \<in> set as \<Longrightarrow>
      lessThan_js (Finite 0) (sortCompare c a b) \<longleftrightarrow> \<not> k a \<le> k b) \<Longrightarrow>
   arraySort c as = sort_key k as"
proof (induction as)
  case Nil
  then show ?case by (simp add: arraySort_def)
next
  case (Cons a as)
  have ih: "arraySort c as = sort_key k as"
    using Cons.prems by (intro Cons.IH) simp_all
  have "insertSorted c a (sort_key k as) = insort_key k a (sort_key k as)"
    using Cons.prems by (intro insertSorted_insort_key) simp
  with ih show ?case by (simp add: arraySort_def sort_key_def)
qed

lemma sortTrainRoutePairsByDistance_eq:
  "sortTrainRoutePairsByDistance bi st pairs sp =
     Inr (pairs,
          st(pairs := arraySort
                        (compareFn (newMap (map (\<lambda>p. (p, trainDistance bi sp p)) (st pairs))))
                        (st pairs)))"
proof -
  have m: "mapArray (distanceEntry bi sp) (st pairs) =
             Inr (map (\<lambda>p. (p, trainDistance bi sp p)) (st pairs))"
    by (rule mapArray_total) (rule distanceEntry_total)
  show ?thesis
    by (simp add: sortTrainRoutePairsByDistance_def m)
qed

lemma arraySort_ordinary:
  assumes "\<forall>p\<in>set as. f p \<noteq> NaN \<and> ordinary (f p)"
  shows "arraySort (compareFn (newMap (map (\<lambda>p. (p, f p)) as))) as = sort_key (rank \<circ> f) as"
proof (rule arraySort_sort_key)
  fix a b assume ab: "a \<in> set as" "b \<in> set as"
  with assms have "ordinary (f a)" "ordinary (f b)" by simp_all
  from subtraction_sign [OF this] ab
  show "lessThan_js (Finite 0)
          (sortCompare (compareFn (newMap (map (\<lambda>p. (p, f p)) as))) a b)
        \<longleftrightarrow> \<not> (rank \<circ> f) a \<le> (rank \<circ> f) b"
    by (simp add: compareFn_distanceMap)
qed

lemma ascendingBy_iff_sorted:
  assumes "\<forall>p\<in>set as. f p \<noteq> NaN"
  shows "ascendingBy f as \<longleftrightarrow> sorted (map (rank \<circ> f) as)"
proof -
  have "sorted_wrt (\<lambda>a b. lessEq_js (f a) (f b)) as
          \<longleftrightarrow> sorted_wrt (\<lambda>a b. (rank \<circ> f) a \<le> (rank \<circ> f) b) as"
  proof
    assume "sorted_wrt (\<lambda>a b. lessEq_js (f a) (f b)) as"
    then show "sorted_wrt (\<lambda>a b. (rank \<circ> f) a \<le> (rank \<circ> f) b) as"
      by (rule sorted_wrt_mono_rel [rotated]) (use assms in \<open>simp add: rank_le_iff\<close>)
  next
    assume "sorted_wrt (\<lambda>a b. (rank \<circ> f) a \<le> (rank \<circ> f) b) as"
    then show "sorted_wrt (\<lambda>a b. lessEq_js (f a) (f b)) as"
      by (rule sorted_wrt_mono_rel [rotated]) (use assms in \<open>simp add: rank_le_iff\<close>)
  qed
  then show ?thesis
    by (simp add: ascendingBy_def sorted_map)
qed

lemma sort_key_fixed_iff: "sort_key k xs = xs \<longleftrightarrow> sorted (map k xs)"
  by (metis sorted_sort_key sort_key_id_if_sorted)

lemma sort_ordinary:
  assumes "\<forall>p\<in>set (st pairs). trainDistance bi sp p \<noteq> NaN"
  shows "sortTrainRoutePairsByDistance bi st pairs sp =
           Inr (pairs, st(pairs := sort_key (rank \<circ> trainDistance bi sp) (st pairs)))"
proof -
  from assms have "\<forall>p\<in>set (st pairs). trainDistance bi sp p \<noteq> NaN \<and>
                      ordinary (trainDistance bi sp p)"
    by (simp add: trainDistance_ordinary)
  then have "arraySort
          (compareFn (newMap (map (\<lambda>p. (p, trainDistance bi sp p)) (st pairs)))) (st pairs)
        = sort_key (rank \<circ> trainDistance bi sp) (st pairs)"
    by (rule arraySort_ordinary)
  then show ?thesis
    by (simp only: sortTrainRoutePairsByDistance_eq)
qed

lemma sort_key_rank_properties:
  assumes "\<forall>p\<in>set as. f p \<noteq> NaN"
  shows "ascendingBy f (sort_key (rank \<circ> f) as)"
    and "filter (\<lambda>p. f p = d) (sort_key (rank \<circ> f) as) = filter (\<lambda>p. f p = d) as"
    and "sort_key (rank \<circ> f) as = as \<longleftrightarrow> ascendingBy f as"
proof -
  from assms have "\<forall>p\<in>set (sort_key (rank \<circ> f) as). f p \<noteq> NaN" by simp
  from ascendingBy_iff_sorted [OF this] show "ascendingBy f (sort_key (rank \<circ> f) as)"
    by simp
  have "filter (\<lambda>p. (rank \<circ> f) p = rank d) (sort_key (rank \<circ> f) as)
          = filter (\<lambda>p. (rank \<circ> f) p = rank d) as"
    by (rule sort_key_stable)
  then show "filter (\<lambda>p. f p = d) (sort_key (rank \<circ> f) as) = filter (\<lambda>p. f p = d) as"
    by (simp add: rank_inject)
  show "sort_key (rank \<circ> f) as = as \<longleftrightarrow> ascendingBy f as"
    by (simp only: sort_key_fixed_iff ascendingBy_iff_sorted [OF assms])
qed

text \<open>
  C1 (as amended). For every array of (train, route) pairs and every station-position
  mapping for which no pair's computed distance is \<open>NaN\<close>, the call returns without
  throwing, and the returned array holds the same pairs in ascending order of distance;
  the sort is stable: for every distance, the pairs of that distance are in the order they
  had in the input.
\<close>

theorem sort_ascending_and_stable:
  "(\<forall>p\<in>set (st pairs). trainDistance bi sp p \<noteq> NaN) \<Longrightarrow>
   \<exists>st'. sortTrainRoutePairsByDistance bi st pairs sp = Inr (pairs, st') \<and>
         ascendingBy (trainDistance bi sp) (st' pairs) \<and>
         mset (st' pairs) = mset (st pairs) \<and>
         (\<forall>d. filter (\<lambda>p. trainDistance bi sp p = d) (st' pairs)
               = filter (\<lambda>p. trainDistance bi sp p = d) (st pairs))"
proof -
  assume a: "\<forall>p\<in>set (st pairs). trainDistance bi sp p \<noteq> NaN"
  from a have e: "sortTrainRoutePairsByDistance bi st pairs sp =
           Inr (pairs, st(pairs := sort_key (rank \<circ> trainDistance bi sp) (st pairs)))"
    by (rule sort_ordinary)
  show ?thesis
    unfolding e
    using sort_key_rank_properties(1,2) [OF a]
    by (intro exI [of _ "st(pairs := sort_key (rank \<circ> trainDistance bi sp) (st pairs))"]) simp
qed

text \<open>The example arrays.\<close>

lemma distance_trainAtLake: "trainDistance exampleBuiltins exampleStations trainAtLake = Finite 5"
  by (simp add: trainDistance_def getProperty_def exampleStations_def trainAtLake_def
        distance_lake)

lemma distance_trainNowhere: "trainDistance exampleBuiltins exampleStations trainNowhere = Finite 0"
  by (simp add: trainDistance_def getProperty_def exampleStations_def trainNowhere_def
        objectPrototypeProperties_def)

lemma distance_trainAtHynes: "trainDistance exampleBuiltins exampleStations trainAtHynes = Finite 1"
  by (simp add: trainDistance_def getProperty_def exampleStations_def trainAtHynes_def
        distance_hynes)

lemma distance_trainAtConstructor:
  "trainDistance exampleBuiltins exampleStations trainAtConstructor = NaN"
  by (simp add: trainDistance_def getProperty_def exampleStations_def trainAtConstructor_def
        objectPrototypeProperties_def)

lemma example_distances:
  "\<forall>p\<in>set (exampleStore 0). trainDistance exampleBuiltins exampleStations p \<noteq> NaN"
  by (simp add: exampleStore_def distance_trainAtLake distance_trainNowhere
        distance_trainAtHynes)

lemma example_sorted:
  "sort_key (rank \<circ> trainDistance exampleBuiltins exampleStations)
     [trainAtLake, trainNowhere, trainAtHynes] = [trainNowhere, trainAtHynes, trainAtLake]"
  by (simp add: distance_trainAtLake distance_trainNowhere distance_trainAtHynes)

lemma example_sort:
  "sortTrainRoutePairsByDistance exampleBuiltins exampleStore 0 exampleStations
     = Inr (0, sortedStore)"
proof -
  have u: "exampleStore(0 := [trainNowhere, trainAtHynes, trainAtLake]) = sortedStore"
    by (rule ext) (simp add: exampleStore_def sortedStore_def)
  have "exampleStore 0 = [trainAtLake, trainNowhere, trainAtHynes]"
    by (simp add: exampleStore_def)
  then have "sort_key (rank \<circ> trainDistance exampleBuiltins exampleStations) (exampleStore 0)
               = [trainNowhere, trainAtHynes, trainAtLake]"
    by (simp only: example_sorted)
  moreover from example_distances
  have "sortTrainRoutePairsByDistance exampleBuiltins exampleStore 0 exampleStations =
          Inr (0, exampleStore(0 := sort_key (rank \<circ> trainDistance exampleBuiltins exampleStations)
                                      (exampleStore 0)))"
    by (rule sort_ordinary)
  ultimately show ?thesis
    by (simp only: u)
qed

lemma example_changed: "sortedStore 0 \<noteq> exampleStore 0"
  by (simp add: sortedStore_def exampleStore_def trainAtLake_def trainNowhere_def)

lemma inherited_sort:
  "sortTrainRoutePairsByDistance exampleBuiltins inheritedStore 0 exampleStations
     = Inr (0, inheritedStore)"
proof -
  let ?as = "[trainAtLake, trainAtConstructor, trainAtHynes]"
  let ?c = "compareFn (newMap (map (\<lambda>p. (p, trainDistance exampleBuiltins exampleStations p)) ?as))"
  have c1: "sortCompare ?c trainAtConstructor trainAtHynes = Finite 0"
    by (subst compareFn_distanceMap)
       (simp_all add: distance_trainAtConstructor distance_trainAtHynes sortCompare_def sub_def)
  have c2: "sortCompare ?c trainAtLake trainAtConstructor = Finite 0"
    by (subst compareFn_distanceMap)
       (simp_all add: distance_trainAtConstructor distance_trainAtLake sortCompare_def sub_def)
  have "arraySort ?c ?as = ?as"
    by (simp only: arraySort_def foldr.simps comp_def id_def insertSorted.simps c1 c2
          lessThan_js_irrefl if_False)
  moreover have "inheritedStore 0 = ?as" by (simp add: inheritedStore_def)
  moreover have "inheritedStore(0 := ?as) = inheritedStore"
    by (rule ext) (simp add: inheritedStore_def)
  ultimately show ?thesis
    by (simp only: sortTrainRoutePairsByDistance_eq)
qed

theorem sort_ascending_and_stable_witness:
  "trainDistance exampleBuiltins exampleStations trainAtLake \<noteq> NaN \<and>
   trainDistance exampleBuiltins exampleStations trainNowhere \<noteq> NaN \<and>
   trainDistance exampleBuiltins exampleStations trainAtHynes \<noteq> NaN \<and>
   sortTrainRoutePairsByDistance exampleBuiltins exampleStore 0 exampleStations
     = Inr (0, sortedStore) \<and>
   ascendingBy (trainDistance exampleBuiltins exampleStations) (sortedStore 0) \<and>
   mset (sortedStore 0) = mset (exampleStore 0)"
proof -
  from example_distances
    sort_ascending_and_stable [of exampleStore 0 exampleBuiltins exampleStations]
  obtain st' where "Inr (0, sortedStore) = (Inr (0, st') :: error + nat \<times> nat store)"
    and s: "ascendingBy (trainDistance exampleBuiltins exampleStations) (st' 0)"
    and m: "mset (st' 0) = mset (exampleStore 0)"
    unfolding example_sort by blast
  then have "st' = sortedStore" by simp
  with s m example_sort show ?thesis
    by (simp add: distance_trainAtLake distance_trainNowhere distance_trainAtHynes)
qed

text \<open>
  With a train whose station id is "constructor" the distances of the example array are
  5, \<open>NaN\<close>, 1; every comparison with the \<open>NaN\<close> counts as equal, the array comes back as it
  was, and it is not in ascending order.
\<close>

theorem sort_not_ascending_with_inherited_id:
  "sortTrainRoutePairsByDistance exampleBuiltins inheritedStore 0 exampleStations
     = Inr (0, inheritedStore) \<and>
   map (trainDistance exampleBuiltins exampleStations) (inheritedStore 0)
     = [Finite 5, NaN, Finite 1] \<and>
   \<not> ascendingBy (trainDistance exampleBuiltins exampleStations) (inheritedStore 0)"
  using inherited_sort
  by (simp add: inheritedStore_def ascendingBy_def lessEq_js_def distance_trainAtLake
        distance_trainAtConstructor distance_trainAtHynes)

text \<open>
  C7 (as amended). The sort works in place: the call returns the reference it was given,
  the array behind that reference holds the same pairs after the call as before, in the
  order the sort gave them, and no other array is written. When no distance is \<open>NaN\<close>,
  that order is ascending by distance, so that the input array is unchanged exactly when
  it was already in ascending order of distance.
\<close>

theorem sort_in_place:
  "\<exists>st'. sortTrainRoutePairsByDistance bi st pairs sp = Inr (pairs, st') \<and>
         mset (st' pairs) = mset (st pairs) \<and>
         (\<forall>other. other \<noteq> pairs \<longrightarrow> st' other = st other) \<and>
         ((\<forall>p\<in>set (st pairs). trainDistance bi sp p \<noteq> NaN) \<longrightarrow>
            ascendingBy (trainDistance bi sp) (st' pairs) \<and>
            (st' pairs = st pairs \<longleftrightarrow> ascendingBy (trainDistance bi sp) (st pairs)))"
proof (cases "\<forall>p\<in>set (st pairs). trainDistance bi sp p \<noteq> NaN")
  case True
  then have e: "sortTrainRoutePairsByDistance bi st pairs sp =
           Inr (pairs, st(pairs := sort_key (rank \<circ> trainDistance bi sp) (st pairs)))"
    by (rule sort_ordinary)
  show ?thesis
    unfolding e
    using sort_key_rank_properties(1,3) [OF True]
    by (intro exI [of _ "st(pairs := sort_key (rank \<circ> trainDistance bi sp) (st pairs))"]) simp
next
  case False
  then show ?thesis
    by (auto simp add: sortTrainRoutePairsByDistance_eq mset_arraySort)
qed

theorem sort_in_place_witness:
  "(1::nat) \<noteq> 0 \<and>
   trainDistance exampleBuiltins exampleStations trainAtLake \<noteq> NaN \<and>
   trainDistance exampleBuiltins exampleStations trainNowhere \<noteq> NaN \<and>
   trainDistance exampleBuiltins exampleStations trainAtHynes \<noteq> NaN \<and>
   sortTrainRoutePairsByDistance exampleBuiltins exampleStore 0 exampleStations
     = Inr (0, sortedStore) \<and>
   ascendingBy (trainDistance exampleBuiltins exampleStations) (sortedStore 0) \<and>
   \<not> ascendingBy (trainDistance exampleBuiltins exampleStations) (exampleStore 0) \<and>
   sortedStore 0 \<noteq> exampleStore 0 \<and>
   sortedStore 1 = exampleStore 1"
proof -
  from sort_in_place [of exampleBuiltins exampleStore 0 exampleStations]
  obtain st' where "Inr (0, sortedStore) = (Inr (0, st') :: error + nat \<times> nat store)"
    and o: "\<forall>other. other \<noteq> 0 \<longrightarrow> st' other = exampleStore other"
    and c: "(\<forall>p\<in>set (exampleStore 0). trainDistance exampleBuiltins exampleStations p \<noteq> NaN) \<longrightarrow>
            ascendingBy (trainDistance exampleBuiltins exampleStations) (st' 0) \<and>
            (st' 0 = exampleStore 0
               \<longleftrightarrow> ascendingBy (trainDistance exampleBuiltins exampleStations) (exampleStore 0))"
    unfolding example_sort by blast
  then have "st' = sortedStore" by simp
  with o c example_distances example_changed example_sort show ?thesis
    by (simp add: distance_trainAtLake distance_trainNowhere distance_trainAtHynes)
qed

text \<open>
  On the example array (distances 5, 0, 1) the array behind the input reference is
  different after the call: the input sequence is not left unchanged.
\<close>

theorem sort_changes_input:
  "sortTrainRoutePairsByDistance exampleBuiltins exampleStore 0 exampleStations
     = Inr (0, sortedStore) \<and>
   exampleStore 0 = [trainAtLake, trainNowhere, trainAtHynes] \<and>
   sortedStore 0 = [trainNowhere, trainAtHynes, trainAtLake] \<and>
   sortedStore 0 \<noteq> exampleStore 0"
  using example_sort example_changed by (simp add: sortedStore_def exampleStore_def)


subsection \<open>The rendered tree\<close>

lemma mset_sortedPairs [simp]: "mset (sortedPairs bi sp as) = mset as"
  by (simp add: sortedPairs_def mset_arraySort)

lemma set_sortedPairs [simp]: "set (sortedPairs bi sp as) = set as"
  using mset_sortedPairs [of bi sp as] by (metis set_mset_mset)

lemma length_sortedPairs [simp]: "length (sortedPairs bi sp as) = length as"
  using mset_sortedPairs [of bi sp as] by (metis size_mset)



lemma renderTrains_eq:
  "renderTrains bi line pre cs focusFirst st pairs =
     Inr (map (renderTrain line cs focusFirst)
            (enumerate 0 (sortedPairs bi (stationPositions pre) (st pairs))),
          st(pairs := sortedPairs bi (stationPositions pre) (st pairs)))"
  by (simp add: renderTrains_def sortTrainRoutePairsByDistance_eq sortedPairs_def)

lemma trainElements_renderLine: "trainElements (renderLine pre cs) = []"
  by (simp add: renderLine_def)

lemma trainElements_renderStation: "trainElements (renderStation bi line pre cs c entry) = []"
  by (simp add: renderStation_def Let_def split: option.split)

lemma trainElements_renderStations:
  "concat (map trainElements (renderStations bi line pre cs)) = []"
  by (simp add: renderStations_def Let_def trainElements_renderStation)

lemma trainElements_renderTrain:
  "trainElements (renderTrain line cs focusFirst ip) =
     [\<lparr>focusOnMount = (focusFirst \<and> fst ip = 0), key = label (train (snd ip)),
       train_p = train (snd ip), route_p = route (snd ip), colors_p = cs,
       alwaysLabelTrain = shouldLabelTrain line (train (snd ip))\<rparr>]"
  by (simp add: renderTrain_def Let_def)

lemma svg_renderLine: "elementsWithTag ''svg'' (renderLine pre cs) = []"
  by (simp add: renderLine_def)

lemma svg_renderStation: "elementsWithTag ''svg'' (renderStation bi line pre cs c entry) = []"
  by (simp add: renderStation_def Let_def split: option.split)

lemma svg_renderStations:
  "concat (map (elementsWithTag ''svg'') (renderStations bi line pre cs)) = []"
  by (simp add: renderStations_def Let_def svg_renderStation)

lemma svg_renderTrain: "elementsWithTag ''svg'' (renderTrain line cs focusFirst ip) = []"
  by (simp add: renderTrain_def Let_def)

lemma Line_empty:
  "st pairs = [] \<Longrightarrow>
   Line bi line style pre state st pairs =
     Inr (Element ''div'' [(''className'', Str ''line-pane empty'')]
            [Element ''div'' [(''className'', Str ''empty-notice'')] [Text (emptyNotice line)]],
          st)"
  by (simp add: Line_def Let_def)

lemma Line_nonempty:
  assumes "st pairs \<noteq> []"
  shows "\<exists>attrs.
    Line bi line style pre state st pairs =
     Inr (Element ''div'' attrs
            [Element ''PopoverContainerContext.Provider''
               [(''value'', Container (container state))]
               [Element ''svg''
                  [(''viewBox'', Str (renderViewboxForBounds bi (bounds pre))),
                   (''style'', Style (renderRelativeStyles
                      (StringValue (renderViewboxForBounds bi (bounds pre)))))]
                  (renderLine pre \<lparr>lines = ''white'', newTrains = color line,
                                    background = colorSecondary line\<rparr>
                   # renderStations bi line pre \<lparr>lines = ''white'', newTrains = color line,
                                    background = colorSecondary line\<rparr>
                   @ map (renderTrain line \<lparr>lines = ''white'', newTrains = color line,
                                    background = colorSecondary line\<rparr> (shouldFocusOnFirstTrain state))
                       (enumerate 0 (sortedPairs bi (stationPositions pre) (st pairs))))]],
          st(pairs := sortedPairs bi (stationPositions pre) (st pairs)))"
  using assms
  by (simp add: Line_def Let_def renderTrains_eq renderViewboxForBoundsCall_def)


lemma trainElements_renderTrains:
  "concat (map (trainElements \<circ> renderTrain line cs focusFirst) ips) =
     map (\<lambda>ip. \<lparr>focusOnMount = (focusFirst \<and> fst ip = 0), key = label (train (snd ip)),
                 train_p = train (snd ip), route_p = route (snd ip), colors_p = cs,
                 alwaysLabelTrain = shouldLabelTrain line (train (snd ip))\<rparr>) ips"
  by (induction ips) (simp_all add: trainElements_renderTrain)

lemma Line_nonempty_parts:
  assumes "st pairs \<noteq> []"
  shows "\<exists>tree.
    Line bi line style pre state st pairs =
      Inr (tree, st(pairs := sortedPairs bi (stationPositions pre) (st pairs))) \<and>
    trainElements tree =
      map (\<lambda>ip. \<lparr>focusOnMount = (shouldFocusOnFirstTrain state \<and> fst ip = 0),
                  key = label (train (snd ip)),
                  train_p = train (snd ip), route_p = route (snd ip),
                  colors_p = \<lparr>lines = ''white'', newTrains = color line,
                               background = colorSecondary line\<rparr>,
                  alwaysLabelTrain = shouldLabelTrain line (train (snd ip))\<rparr>)
        (enumerate 0 (sortedPairs bi (stationPositions pre) (st pairs))) \<and>
    elementsWithTag ''svg'' tree =
      [[(''viewBox'', Str (renderViewboxForBounds bi (bounds pre))),
        (''style'', Style (renderRelativeStyles
                             (StringValue (renderViewboxForBounds bi (bounds pre)))))]]"
proof -
  from assms Line_nonempty [of st pairs bi line style pre state]
  obtain attrs where l: "Line bi line style pre state st pairs =
     Inr (Element ''div'' attrs
            [Element ''PopoverContainerContext.Provider''
               [(''value'', Container (container state))]
               [Element ''svg''
                  [(''viewBox'', Str (renderViewboxForBounds bi (bounds pre))),
                   (''style'', Style (renderRelativeStyles
                      (StringValue (renderViewboxForBounds bi (bounds pre)))))]
                  (renderLine pre \<lparr>lines = ''white'', newTrains = color line,
                                    background = colorSecondary line\<rparr>
                   # renderStations bi line pre \<lparr>lines = ''white'', newTrains = color line,
                                    background = colorSecondary line\<rparr>
                   @ map (renderTrain line \<lparr>lines = ''white'', newTrains = color line,
                                    background = colorSecondary line\<rparr> (shouldFocusOnFirstTrain state))
                       (enumerate 0 (sortedPairs bi (stationPositions pre) (st pairs))))]],
          st(pairs := sortedPairs bi (stationPositions pre) (st pairs)))"
    by blast
  show ?thesis
    unfolding l
    by (simp add: trainElements_renderLine trainElements_renderStations
          trainElements_renderTrains svg_renderLine svg_renderStations svg_renderTrain)
qed


subsection \<open>A train at an unknown station\<close>



lemma example_nonempty: "exampleStore 0 \<noteq> []"
  by (simp add: exampleStore_def)





subsection \<open>A line without trains\<close>

text \<open>
  C4. When the array of (train, route) pairs is empty, \<open>Line\<close> returns the fallback notice,
  a \<open>div\<close> holding a \<open>div\<close> holding one text, and the tree has no \<open>svg\<close> element (and no
  train element); the store is untouched. The text is "New Red Line trains are expected
  later in 2020." when the line's name is "Red", and "No new trains on the {name} Line
  right now." with the name filled in otherwise.
\<close>

theorem no_trains_notice:
  "st pairs = [] \<Longrightarrow>
   (\<exists>tree. Line bi line style pre state st pairs = Inr (tree, st) \<and>
      tree = Element ''div'' [(''className'', Str ''line-pane empty'')]
               [Element ''div'' [(''className'', Str ''empty-notice'')]
                  [Text (if name line = ''Red''
                         then ''New Red Line trains are expected later in 2020.''
                         else ''No new trains on the '' @ name line @ '' Line right now.'')]] \<and>
      \<not> containsTag ''svg'' tree \<and>
      trainElements tree = [])"
  by (simp add: Line_empty emptyNotice_def)

theorem no_trains_notice_witness:
  "(\<lambda>ref. []) (0::nat) = ([] :: nat trainRoutePair list) \<and>
   Line exampleBuiltins exampleLine [] examplePrerendered exampleState (\<lambda>ref. []) 0 =
     Inr (Element ''div'' [(''className'', Str ''line-pane empty'')]
            [Element ''div'' [(''className'', Str ''empty-notice'')]
               [Text ''No new trains on the Green Line right now.'']],
          (\<lambda>ref. [])) \<and>
   Line exampleBuiltins (exampleLine\<lparr>name := ''Red''\<rparr>) [] examplePrerendered exampleState
       (\<lambda>ref. []) 0 =
     Inr (Element ''div'' [(''className'', Str ''line-pane empty'')]
            [Element ''div'' [(''className'', Str ''empty-notice'')]
               [Text ''New Red Line trains are expected later in 2020.'']],
          (\<lambda>ref. []))"
  using no_trains_notice [of "\<lambda>ref. []" 0 exampleBuiltins exampleLine "[]" examplePrerendered
          exampleState]
    no_trains_notice [of "\<lambda>ref. []" 0 exampleBuiltins "exampleLine\<lparr>name := ''Red''\<rparr>" "[]"
          examplePrerendered exampleState]
  by (simp add: exampleLine_def)

text \<open>With at least one pair the tree does have an \<open>svg\<close> element.\<close>

lemma Line_with_trains_has_svg:
  "st pairs \<noteq> [] \<Longrightarrow>
   \<exists>tree st'. Line bi line style pre state st pairs = Inr (tree, st') \<and> containsTag ''svg'' tree"
  using Line_nonempty [of st pairs bi line style pre state] by auto


subsection \<open>Initial focus\<close>





subsection \<open>The viewbox at the call site\<close>

text \<open>
  C9. \<open>renderViewboxForBounds\<close> ignores every argument after the first: whatever is passed
  after the bounds, the result is that of the one-argument call, computed with the
  paddings 50 (left and right), 5 (top) and 10 (bottom) of the function body. The
  \<open>viewBox\<close> of the \<open>svg\<close> that \<open>Line\<close> renders, where the call passes
  \<open>{ paddingX: 500, paddingY: 5 }\<close>, is this one-argument result.
\<close>

theorem surplus_arguments_ignored:
  "(\<forall>surplus :: paddingOptions list.
      renderViewboxForBoundsCall bi b surplus = renderViewboxForBounds bi b) \<and>
   renderViewboxForBounds bi b =
     numberToString bi (sub (left_b b) (Finite 50)) @ '' '' @
     numberToString bi (sub (top_b b) (Finite 5)) @ '' '' @
     numberToString bi (add (sub (right_b b) (left_b b)) (mul (Finite 50) (Finite 2))) @ '' '' @
     numberToString bi (add (add (sub (bottom_b b) (top_b b)) (Finite 5)) (Finite 10)) \<and>
   (st pairs \<noteq> [] \<longrightarrow>
      (\<exists>tree st'.
         Line bi line style pre state st pairs = Inr (tree, st') \<and>
         map (\<lambda>attrs. map_of attrs ''viewBox'') (elementsWithTag ''svg'' tree) =
           [Some (Str (renderViewboxForBounds bi (bounds pre)))]))"
proof -
  have call: "\<forall>surplus :: paddingOptions list.
      renderViewboxForBoundsCall bi b surplus = renderViewboxForBounds bi b"
    by (simp add: renderViewboxForBoundsCall_def)
  have str: "renderViewboxForBounds bi b =
     numberToString bi (sub (left_b b) (Finite 50)) @ '' '' @
     numberToString bi (sub (top_b b) (Finite 5)) @ '' '' @
     numberToString bi (add (sub (right_b b) (left_b b)) (mul (Finite 50) (Finite 2))) @ '' '' @
     numberToString bi (add (add (sub (bottom_b b) (top_b b)) (Finite 5)) (Finite 10))"
    unfolding viewboxNumbers_def renderViewboxForBounds_def viewboxTemplate_def Let_def
    by simp
  have line: "\<exists>tree st'.
         Line bi line style pre state st pairs = Inr (tree, st') \<and>
         map (\<lambda>attrs. map_of attrs ''viewBox'') (elementsWithTag ''svg'' tree) =
           [Some (Str (renderViewboxForBounds bi (bounds pre)))]"
    if ne: "st pairs \<noteq> []"
  proof -
    from ne Line_nonempty_parts [of st pairs bi line style pre state]
    obtain tree st' where "Line bi line style pre state st pairs = Inr (tree, st')"
      and "elementsWithTag ''svg'' tree =
             [[(''viewBox'', Str (renderViewboxForBounds bi (bounds pre))),
               (''style'', Style (renderRelativeStyles
                             (StringValue (renderViewboxForBounds bi (bounds pre)))))]]"
      by blast
    then show ?thesis by simp
  qed
  from call str line show ?thesis by blast
qed

theorem surplus_arguments_ignored_witness:
  "exampleStore 0 \<noteq> [] \<and>
   renderViewboxForBoundsCall exampleBuiltins (bounds examplePrerendered)
     [\<lparr>paddingX_opt = Finite 500, paddingY_opt = Finite 5\<rparr>] = ''n n n n'' \<and>
   (\<exists>tree st'.
      Line exampleBuiltins exampleLine [] examplePrerendered exampleState exampleStore 0
        = Inr (tree, st') \<and>
      map (\<lambda>attrs. map_of attrs ''viewBox'') (elementsWithTag ''svg'' tree)
        = [Some (Str ''n n n n'')])"
proof -
  have v: "renderViewboxForBounds exampleBuiltins (bounds examplePrerendered) = ''n n n n''"
    by (simp add: renderViewboxForBounds_def viewboxTemplate_def viewboxNumbers_def
          exampleBuiltins_def examplePrerendered_def sub_def roundToDouble_numeral
          roundToDouble_neg_numeral)
  from surplus_arguments_ignored [of exampleBuiltins "bounds examplePrerendered" exampleStore 0
         exampleLine "[]" examplePrerendered exampleState] example_nonempty
  show ?thesis unfolding v by blast
qed


subsection \<open>The relative style at the call site\<close>

text \<open>With numbers for width and height the first branch is taken when width is larger.\<close>

lemma width_branch_reachable:
  "renderRelativeStyles (SizeObject (Some (Finite 2)) (Some (Finite 1))) = [(''width'', ''100%'')]"
  by (simp add: renderRelativeStyles_def)

text \<open>
  C10. \<open>renderRelativeStyles\<close> applied to a string reads \<open>undefined\<close> for both \<open>width\<close>
  and \<open>height\<close>, the comparison \<open>width > height\<close> is false, and the result is
  \<open>{ height: '100%' }\<close>. \<open>Line\<close> applies it to the viewbox string, so for all bounds (and all
  other inputs) the style of the rendered \<open>svg\<close> is \<open>{ height: '100%' }\<close>, never
  \<open>{ width: '100%' }\<close>.
\<close>

theorem relative_style_always_height:
  "(\<forall>s. widthOf (StringValue s) = None \<and> heightOf (StringValue s) = None \<and>
        \<not> greaterThan_js (widthOf (StringValue s)) (heightOf (StringValue s)) \<and>
        renderRelativeStyles (StringValue s) = [(''height'', ''100%'')]) \<and>
   (st pairs \<noteq> [] \<longrightarrow>
      (\<exists>tree st'.
         Line bi line style pre state st pairs = Inr (tree, st') \<and>
         map (\<lambda>attrs. map_of attrs ''style'') (elementsWithTag ''svg'' tree) =
           [Some (Style [(''height'', ''100%'')])]))"
proof -
  have str: "\<forall>s. widthOf (StringValue s) = None \<and> heightOf (StringValue s) = None \<and>
        \<not> greaterThan_js (widthOf (StringValue s)) (heightOf (StringValue s)) \<and>
        renderRelativeStyles (StringValue s) = [(''height'', ''100%'')]"
    by (simp add: renderRelativeStyles_def)
  have line: "\<exists>tree st'.
         Line bi line style pre state st pairs = Inr (tree, st') \<and>
         map (\<lambda>attrs. map_of attrs ''style'') (elementsWithTag ''svg'' tree) =
           [Some (Style [(''height'', ''100%'')])]"
    if ne: "st pairs \<noteq> []"
  proof -
    from ne Line_nonempty_parts [of st pairs bi line style pre state]
    obtain tree st' where "Line bi line style pre state st pairs = Inr (tree, st')"
      and "elementsWithTag ''svg'' tree =
             [[(''viewBox'', Str (renderViewboxForBounds bi (bounds pre))),
               (''style'', Style (renderRelativeStyles
                             (StringValue (renderViewboxForBounds bi (bounds pre)))))]]"
      by blast
    then show ?thesis using str by simp
  qed
  from str line show ?thesis by blast
qed

theorem relative_style_always_height_witness:
  "exampleStore 0 \<noteq> [] \<and>
   (\<exists>tree st'.
      Line exampleBuiltins exampleLine [] examplePrerendered exampleState exampleStore 0
        = Inr (tree, st') \<and>
      map (\<lambda>attrs. map_of attrs ''style'') (elementsWithTag ''svg'' tree)
        = [Some (Style [(''height'', ''100%'')])])"
  using relative_style_always_height [of exampleStore 0 exampleBuiltins exampleLine "[]"
          examplePrerendered exampleState] example_nonempty
  by blast

end
